theory Spec2Isabelle
  imports Complex_Main "HOL-Library.Word"
begin

unbundle bit_operations_syntax

section \<open>Bytes, Python slices and \<open>struct\<close>\<close>

text \<open>
  The message bus of \<open>object_database/message_bus.py\<close>.  A Python \<open>bytes\<close> or
  \<open>bytearray\<close> value is a list of 8-bit words.  Python integers are unbounded
  (\<open>int\<close>).  An exception is a value of type \<open>error\<close>; a function that can raise
  returns \<open>error + 'a\<close>.
\<close>

type_synonym byte = "8 word"
type_synonym bytes = "byte list"

datatype error =
    CorruptMessageStream
  | StructError
  | NotActive
  | ValueError
  | SerializeError
  | UnicodeEncodeError
  | UnboundLocalError
  | KeyError

text \<open>
  \<open>xs[:e]\<close>, \<open>xs[s:e]\<close> and \<open>xs[:e] = b""\<close> with Python's treatment of negative
  and out-of-range bounds: a negative bound counts from the end and is clamped at 0,
  a bound beyond the end is clamped at the length.
\<close>

definition py_index :: "'a list \<Rightarrow> int \<Rightarrow> nat" where
  "py_index xs i =
     (if i < 0 then nat (int (length xs) + i) else min (nat i) (length xs))"

definition py_slice_to :: "'a list \<Rightarrow> int \<Rightarrow> 'a list" where
  "py_slice_to xs e = take (py_index xs e) xs"

definition py_slice :: "'a list \<Rightarrow> int \<Rightarrow> int \<Rightarrow> 'a list" where
  "py_slice xs s e = drop (py_index xs s) (take (py_index xs e) xs)"

definition py_del_to :: "'a list \<Rightarrow> int \<Rightarrow> 'a list" where
  "py_del_to xs e = drop (py_index xs e) xs"

text \<open>
  \<open>struct.pack("i", n)\<close> and \<open>struct.unpack("i", bs)[0]\<close>: a signed 32-bit integer
  in four bytes, least significant byte first (the native order of the little-endian
  machines the bus runs on).  \<open>pack\<close> raises \<open>struct.error\<close> outside the 32-bit range,
  \<open>unpack\<close> raises it unless it is given exactly four bytes.
\<close>

definition int32_bytes :: "32 word \<Rightarrow> bytes" where
  "int32_bytes w =
     [ucast w, ucast (drop_bit 8 w), ucast (drop_bit 16 w), ucast (drop_bit 24 w)]"

definition bytes_int32 :: "byte \<Rightarrow> byte \<Rightarrow> byte \<Rightarrow> byte \<Rightarrow> 32 word" where
  "bytes_int32 a b c d =
     ucast a OR push_bit 8 (ucast b) OR push_bit 16 (ucast c) OR push_bit 24 (ucast d)"

definition struct_pack_i :: "int \<Rightarrow> error + bytes" where
  "struct_pack_i n =
     (if - (2 ^ 31) \<le> n \<and> n < 2 ^ 31 then Inr (int32_bytes (word_of_int n))
      else Inl StructError)"

fun struct_unpack_i :: "bytes \<Rightarrow> error + int" where
  "struct_unpack_i [a, b, c, d] = Inr (sint (bytes_int32 a b c d))"
| "struct_unpack_i _ = Inl StructError"

section \<open>MessageBuffer\<close>

definition MESSAGE_LEN_BYTES :: nat where
  "MESSAGE_LEN_BYTES = 4"

record MessageBuffer =
  buffer :: bytes
  messagesEver :: int
  extraMessageSizeCheck :: bool
  curMessageLen :: "int option"

definition MessageBuffer_init :: "bool \<Rightarrow> MessageBuffer" where
  "MessageBuffer_init extra =
     \<lparr>buffer = [], messagesEver = 0, extraMessageSizeCheck = extra, curMessageLen = None\<rparr>"

definition pendingBytecount :: "MessageBuffer \<Rightarrow> int" where
  "pendingBytecount mb = int (length (buffer mb))"

text \<open>\<open>MessageBuffer.encode\<close>: the length, the payload, and the length again when the
  extra size check is on.\<close>

definition encode :: "bytes \<Rightarrow> bool \<Rightarrow> error + bytes" where
  "encode bs extra =
     (case struct_pack_i (int (length bs)) of
        Inl e \<Rightarrow> Inl e
      | Inr hdr \<Rightarrow> Inr (hdr @ bs @ (if extra then hdr else [])))"

text \<open>
  The first statement of the loop body of \<open>MessageBuffer.write\<close>: read the length
  prefix when none is pending and four bytes are there.  \<open>struct.unpack\<close> cannot raise
  here, the slice has four bytes.
\<close>

definition read_prefix :: "MessageBuffer \<Rightarrow> MessageBuffer" where
  "read_prefix mb =
     (if curMessageLen mb = None \<and> length (buffer mb) \<ge> MESSAGE_LEN_BYTES then
        (case struct_unpack_i (py_slice_to (buffer mb) (int MESSAGE_LEN_BYTES)) of
           Inr n \<Rightarrow> mb\<lparr>curMessageLen := Some n,
                       buffer := py_del_to (buffer mb) (int MESSAGE_LEN_BYTES)\<rparr>
         | Inl e \<Rightarrow> mb)
      else mb)"

text \<open>
  The \<open>while True\<close> loop of \<open>MessageBuffer.write\<close>.  The result pairs what the call
  returns or raises with the buffer object as the call leaves it: the object is
  mutated in place, so its state survives an exception, while the local list
  \<open>messages\<close> is lost with it.
\<close>

function write_loop :: "MessageBuffer \<Rightarrow> bytes list \<Rightarrow> (error + bytes list) \<times> MessageBuffer" where
  "write_loop mb0 messages =
     (let mb = read_prefix mb0 in
      case curMessageLen mb of
        None \<Rightarrow> (Inr messages, mb)
      | Some msgLen \<Rightarrow>
          if extraMessageSizeCheck mb then
            if int (length (buffer mb)) \<ge> msgLen + int MESSAGE_LEN_BYTES then
              (let messages' = messages @ [py_slice_to (buffer mb) msgLen];
                   mb1 = mb\<lparr>messagesEver := messagesEver mb + 1\<rparr>;
                   sizeCheckBytes = py_slice (buffer mb1) msgLen (msgLen + int MESSAGE_LEN_BYTES)
               in case struct_unpack_i sizeCheckBytes of
                    Inl e \<Rightarrow> (Inl e, mb1)
                  | Inr sizeCheck \<Rightarrow>
                      (let mb2 = mb1\<lparr>buffer := py_del_to (buffer mb1) (msgLen + int MESSAGE_LEN_BYTES),
                                     curMessageLen := None\<rparr>
                       in if sizeCheck \<noteq> msgLen then (Inl CorruptMessageStream, mb2)
                          else write_loop mb2 messages'))
            else (Inr messages, mb)
          else
            if int (length (buffer mb)) \<ge> msgLen then
              write_loop
                (mb\<lparr>messagesEver := messagesEver mb + 1,
                    buffer := py_del_to (buffer mb) msgLen,
                    curMessageLen := None\<rparr>)
                (messages @ [py_slice_to (buffer mb) msgLen])
            else (Inr messages, mb))"
  by pat_completeness auto

lemma length_py_del_to: "length (py_del_to xs e) \<le> length xs"
  by (simp add: py_del_to_def)

lemma read_prefix_measure:
  "2 * length (buffer (read_prefix mb)) + (if curMessageLen (read_prefix mb) = None then 0 else 1)
     \<le> 2 * length (buffer mb) + (if curMessageLen mb = None then 0 else 1)"
  by (auto simp: read_prefix_def MESSAGE_LEN_BYTES_def py_del_to_def py_index_def py_slice_to_def
           split: sum.splits)

termination write_loop
proof (relation "measure (\<lambda>(mb, ms). 2 * length (buffer mb) + (if curMessageLen mb = None then 0 else 1))",
       goal_cases)
  case 1
  show ?case by simp
next
  case (2 mb0 messages mb msgLen)
  have le: "length (py_del_to (buffer mb) (msgLen + int MESSAGE_LEN_BYTES)) \<le> length (buffer mb)"
    by (rule length_py_del_to)
  from 2 have "curMessageLen (read_prefix mb0) \<noteq> None" by simp
  with read_prefix_measure [of mb0] 2 le show ?case
    by (simp split: if_splits)
next
  case (3 mb0 messages mb msgLen)
  have le: "length (py_del_to (buffer mb) msgLen) \<le> length (buffer mb)"
    by (rule length_py_del_to)
  from 3 have "curMessageLen (read_prefix mb0) \<noteq> None" by simp
  with read_prefix_measure [of mb0] 3 le show ?case
    by (simp split: if_splits)
qed

declare write_loop.simps [simp del]

text \<open>\<open>MessageBuffer.write\<close>: extend the buffer, then run the loop.\<close>

definition MessageBuffer_write :: "MessageBuffer \<Rightarrow> bytes \<Rightarrow> (error + bytes list) \<times> MessageBuffer" where
  "MessageBuffer_write mb bytesToWrite = write_loop (mb\<lparr>buffer := buffer mb @ bytesToWrite\<rparr>) []"


section \<open>UTF-8\<close>

text \<open>
  A Python \<open>str\<close> is a list of code points.  \<open>str.encode("utf8")\<close> raises
  \<open>UnicodeEncodeError\<close> on a surrogate; \<open>bytes.decode("utf8")\<close> is the strict decoder:
  it raises \<open>UnicodeDecodeError\<close> on a stray or missing continuation byte, an overlong
  form, a surrogate or a code point above \<open>0x10FFFF\<close>.  Both are \<open>None\<close> here when
  they raise.
\<close>

type_synonym pystr = "nat list"

definition utf8_encode_cp :: "nat \<Rightarrow> nat list option" where
  "utf8_encode_cp cp =
     (if cp < 0x80 then Some [cp]
      else if cp < 0x800 then Some [0xC0 + cp div 64, 0x80 + cp mod 64]
      else if cp < 0x10000 then
        (if 0xD800 \<le> cp \<and> cp \<le> 0xDFFF then None
         else Some [0xE0 + cp div 4096, 0x80 + (cp div 64) mod 64, 0x80 + cp mod 64])
      else if cp < 0x110000 then
        Some [0xF0 + cp div 262144, 0x80 + (cp div 4096) mod 64,
              0x80 + (cp div 64) mod 64, 0x80 + cp mod 64]
      else None)"

fun utf8_enc :: "pystr \<Rightarrow> nat list option" where
  "utf8_enc [] = Some []"
| "utf8_enc (cp # cps) =
     (case utf8_encode_cp cp of
        None \<Rightarrow> None
      | Some bs \<Rightarrow> (case utf8_enc cps of None \<Rightarrow> None | Some rest \<Rightarrow> Some (bs @ rest)))"

definition utf8_encode :: "pystr \<Rightarrow> bytes option" where
  "utf8_encode str = map_option (map of_nat) (utf8_enc str)"

definition is_cont :: "nat \<Rightarrow> bool" where
  "is_cont b \<longleftrightarrow> 0x80 \<le> b \<and> b < 0xC0"

fun utf8_dec :: "nat list \<Rightarrow> pystr option" where
  "utf8_dec [] = Some []"
| "utf8_dec (b0 # rest) =
     (if b0 < 0x80 then map_option (Cons b0) (utf8_dec rest)
      else if 0xC2 \<le> b0 \<and> b0 < 0xE0 then
        (case rest of
           b1 # r \<Rightarrow>
             if is_cont b1 then map_option (Cons ((b0 - 0xC0) * 64 + (b1 - 0x80))) (utf8_dec r)
             else None
         | _ \<Rightarrow> None)
      else if 0xE0 \<le> b0 \<and> b0 < 0xF0 then
        (case rest of
           b1 # b2 # r \<Rightarrow>
             (let cp = (b0 - 0xE0) * 4096 + (b1 - 0x80) * 64 + (b2 - 0x80)
              in if is_cont b1 \<and> is_cont b2 \<and> 0x800 \<le> cp \<and> \<not> (0xD800 \<le> cp \<and> cp \<le> 0xDFFF)
                 then map_option (Cons cp) (utf8_dec r) else None)
         | _ \<Rightarrow> None)
      else if 0xF0 \<le> b0 \<and> b0 < 0xF5 then
        (case rest of
           b1 # b2 # b3 # r \<Rightarrow>
             (let cp = (b0 - 0xF0) * 262144 + (b1 - 0x80) * 4096 + (b2 - 0x80) * 64 + (b3 - 0x80)
              in if is_cont b1 \<and> is_cont b2 \<and> is_cont b3 \<and> 0x10000 \<le> cp \<and> cp < 0x110000
                 then map_option (Cons cp) (utf8_dec r) else None)
         | _ \<Rightarrow> None)
      else None)"

definition utf8_decode :: "bytes \<Rightarrow> pystr option" where
  "utf8_decode bs = utf8_dec (map unat bs)"


section \<open>The bus: data\<close>

text \<open>
  A \<open>ConnectionId\<close> wraps a Python integer.  A socket object is known by its identity,
  a natural number.  Timestamps are the values of \<open>time.time()\<close>; only their order and
  the sum \<open>time.time() + delay\<close> are used, and they are real numbers here.
\<close>

type_synonym ConnectionId = int
type_synonym sock = nat
type_synonym Endpoint = "string \<times> int"

datatype 'm MessageBusEvent =
    Stopped
  | NewIncomingConnection Endpoint ConnectionId
  | IncomingConnectionClosed ConnectionId
  | IncomingMessage ConnectionId 'm
  | OutgoingConnectionEstablished ConnectionId
  | OutgoingConnectionFailed ConnectionId
  | OutgoingConnectionClosed ConnectionId

text \<open>What travels on \<open>_messagesToSendQueue\<close>: the singleton \<open>Disconnected\<close>, or a
  pair of a connection id and either the singleton \<open>TriggerConnect\<close> or serialized
  bytes.\<close>

datatype sendMsg = TriggerConnect | Payload bytes

datatype sendItem = Disconnected | ToSend ConnectionId sendMsg

text \<open>What travels on \<open>_eventsToFireQueue\<close>: a pair \<open>(connectionId, TriggerDisconnect)\<close>
  or an event.\<close>

datatype 'm fireItem = TriggerDisconnect ConnectionId | FireEvent "'m MessageBusEvent"

text \<open>
  A callback is a Python callable, compared by identity: the first component is the
  identity of the object, the second what calling it does.  The bus builds two kinds of
  closure itself, \<open>lambda: self._connectTo(connId)\<close> and
  \<open>lambda: self._scheduleEvent(readMessage)\<close>; everything else is the caller's code.
\<close>

datatype 'm closure = ConnectTo ConnectionId | ScheduleEvent "'m fireItem" | UserCode

type_synonym 'm callback = "nat \<times> 'm closure"

text \<open>An item of \<open>_eventQueue\<close> is an event or a callback; Python's \<open>None\<close>, the
  sentinel, is \<open>None\<close>.\<close>

datatype 'm queueItem = QEvent "'m MessageBusEvent" | QCallback "'m callback"

datatype level = DEBUG | INFO | WARNING | ERROR

record 'm MessageBus =
  authToken :: "pystr option"
  started :: bool
  bus_extraMessageSizeCheck :: bool
  acceptSocket :: "sock option"
  connIdToIncomingSocket :: "ConnectionId \<rightharpoonup> sock"
  connIdToOutgoingSocket :: "ConnectionId \<rightharpoonup> sock"
  socketToIncomingConnId :: "sock \<rightharpoonup> ConnectionId"
  socketToOutgoingConnId :: "sock \<rightharpoonup> ConnectionId"
  unauthenticatedConnections :: "ConnectionId set"
  connIdToIncomingEndpoint :: "ConnectionId \<rightharpoonup> Endpoint"
  connIdToOutgoingEndpoint :: "ConnectionId \<rightharpoonup> Endpoint"
  connIdPendingOutgoingConnection :: "ConnectionId set"
  messagesForUnconnectedOutgoingConnection :: "ConnectionId \<rightharpoonup> bytes list"
  messageToSendWakePipe :: nat
  eventToFireWakePipe :: nat
  generalWakePipe :: nat
  totalBytesPendingInOutputLoop :: int
  totalBytesWritten :: int
  totalBytesPendingInInputLoop :: int
  totalBytesPendingInInputLoopHighWatermark :: int
  totalBytesRead :: int
  connectionIdCounter :: int
  messagesToSendQueue :: "sendItem list"
  maxBytes :: "int option"
  eventsToFireQueue :: "'m fireItem list"
  eventQueue :: "'m queueItem option list"
  socketToBytesNeedingWrite :: "sock \<rightharpoonup> bytes"
  socketsWithSslWantWrite :: "sock set"
  allSockets :: "sock set"
  incomingSocketBuffers :: "sock \<rightharpoonup> MessageBuffer"
  pendingTimedCallbacks :: "(real \<times> 'm callback option) list"
  logged :: "(level \<times> string) list"
  wire :: "sock \<Rightarrow> bytes"

text \<open>
  The fields are those of \<open>MessageBus.__init__\<close> that the functions below read or
  write, with three additions from outside the class: \<open>maxBytes\<close> is the cap held by
  the send queue, \<open>logged\<close> collects the records handed to the logger (level and
  message template), and \<open>wire s k\<close> is the bytes that \<open>send\<close> on socket \<open>k\<close> has
  accepted so far, the stream the peer reads.  The three wake pipes hold the number of
  bytes written to them and not yet read.  \<open>allSockets\<close> is the set of sockets the
  \<open>SocketWatcher\<close> knows.
\<close>

definition log_msg :: "level \<Rightarrow> string \<Rightarrow> 'm MessageBus \<Rightarrow> 'm MessageBus" where
  "log_msg lv msg s = s\<lparr>logged := logged s @ [(lv, msg)]\<rparr>"

section \<open>The bus: queues and timed callbacks\<close>

fun bytesPerMsg :: "sendItem \<Rightarrow> int" where
  "bytesPerMsg Disconnected = 0"
| "bytesPerMsg (ToSend c TriggerConnect) = 0"
| "bytesPerMsg (ToSend c (Payload bs)) = int (length bs)"

text \<open>
  Modelled from the spec: \<open>BytecountLimitedQueue\<close>
  (\<open>object_database/bytecount_limited_queue.py\<close> is not among the sources).  The spec:
  \<open>put(item)\<close> blocks the calling thread while
  \<open>current_bytes + size_of(item) > max_bytes\<close> and a cap is set; items of size 0 never
  block; \<open>current_bytes\<close> is the sum of the sizes of the queued items; \<open>get(timeout)\<close>
  blocks until an item is available or the timeout elapses.  \<open>queue_put\<close> is \<open>None\<close>
  where \<open>put\<close> blocks; \<open>queue_get\<close> is \<open>get(timeout=0.0)\<close>, which hands out \<open>None\<close>
  on an empty queue.
\<close>

definition queue_put :: "sendItem \<Rightarrow> 'm MessageBus \<Rightarrow> 'm MessageBus option" where
  "queue_put item s =
     (case maxBytes s of
        None \<Rightarrow> Some (s\<lparr>messagesToSendQueue := messagesToSendQueue s @ [item]\<rparr>)
      | Some cap \<Rightarrow>
          if bytesPerMsg item \<noteq> 0 \<and>
             sum_list (map bytesPerMsg (messagesToSendQueue s)) + bytesPerMsg item > cap
          then None
          else Some (s\<lparr>messagesToSendQueue := messagesToSendQueue s @ [item]\<rparr>))"

definition queue_get :: "'m MessageBus \<Rightarrow> sendItem option \<times> 'm MessageBus" where
  "queue_get s =
     (case messagesToSendQueue s of
        [] \<Rightarrow> (None, s)
      | item # rest \<Rightarrow> (Some item, s\<lparr>messagesToSendQueue := rest\<rparr>))"

text \<open>
  \<open>sortedcontainers.SortedSet(key=lambda tsAndCallback: tsAndCallback[0])\<close>: a set of
  pairs kept in a list sorted by the first component.  \<open>add\<close> does nothing when an
  equal pair is already a member, and otherwise inserts to the right of every member
  whose key is not larger (\<open>bisect_right\<close>).
\<close>

fun insort_right :: "real \<times> 'c \<Rightarrow> (real \<times> 'c) list \<Rightarrow> (real \<times> 'c) list" where
  "insort_right v [] = [v]"
| "insort_right v (x # xs) = (if fst v < fst x then v # x # xs else x # insort_right v xs)"

definition SortedSet_add :: "real \<times> 'c \<Rightarrow> (real \<times> 'c) list \<Rightarrow> (real \<times> 'c) list" where
  "SortedSet_add v xs = (if v \<in> set xs then xs else insort_right v xs)"

definition scheduleEvent :: "'m fireItem \<Rightarrow> 'm MessageBus \<Rightarrow> 'm MessageBus" where
  "scheduleEvent event s =
     s\<lparr>eventsToFireQueue := eventsToFireQueue s @ [event],
       eventToFireWakePipe := eventToFireWakePipe s + 1\<rparr>"

definition fireEvent :: "'m MessageBusEvent \<Rightarrow> 'm MessageBus \<Rightarrow> 'm MessageBus" where
  "fireEvent event s = s\<lparr>eventQueue := eventQueue s @ [Some (QEvent event)]\<rparr>"

text \<open>\<open>scheduleCallback(callback, atTimestamp=None, delay=None)\<close>; \<open>now\<close> is what
  \<open>time.time()\<close> returns if it is called.\<close>

definition scheduleCallback ::
  "'m callback option \<Rightarrow> real option \<Rightarrow> real option \<Rightarrow> real \<Rightarrow> 'm MessageBus
   \<Rightarrow> error + 'm MessageBus" where
  "scheduleCallback callback atTimestamp delay now s =
     (case callback of
        None \<Rightarrow> Inr (log_msg WARNING ''Cannot scheduleCallback(None); discarding.'' s)
      | Some cb \<Rightarrow>
          if atTimestamp \<noteq> None \<and> delay \<noteq> None then Inl ValueError
          else
            (let delay' = (case delay of None \<Rightarrow> 0 | Some d \<Rightarrow> d);
                 atTimestamp' = (case atTimestamp of None \<Rightarrow> now + delay' | Some t \<Rightarrow> t);
                 s1 = s\<lparr>pendingTimedCallbacks :=
                          SortedSet_add (atTimestamp', Some cb) (pendingTimedCallbacks s)\<rparr>
             in if fst (hd (pendingTimedCallbacks s1)) = atTimestamp'
                then Inr (s1\<lparr>generalWakePipe := generalWakePipe s1 + 1\<rparr>)
                else Inr s1))"

text \<open>
  The loop of \<open>_consumeCallbacksOnOutputThread\<close> on the two fields it touches, the
  pending set and the event queue.  \<open>clock i\<close> is the value of the \<open>i\<close>-th call of
  \<open>time.time()\<close>.
\<close>

fun consume_loop ::
  "(nat \<Rightarrow> real) \<Rightarrow> nat \<Rightarrow> (real \<times> 'm callback option) list \<Rightarrow> 'm queueItem option list
   \<Rightarrow> real option \<times> (real \<times> 'm callback option) list \<times> 'm queueItem option list" where
  "consume_loop clock i [] q = (None, [], q)"
| "consume_loop clock i ((ts, callback) # rest) q =
     (let t0 = clock i in
      if ts \<le> t0 then
        consume_loop clock (Suc i) rest
          (case callback of None \<Rightarrow> q | Some cb \<Rightarrow> q @ [Some (QCallback cb)])
      else (Some (max (ts - t0) 0), (ts, callback) # rest, q))"

definition consumeCallbacksOnOutputThread ::
  "(nat \<Rightarrow> real) \<Rightarrow> 'm MessageBus \<Rightarrow> real option \<times> 'm MessageBus" where
  "consumeCallbacksOnOutputThread clock s =
     (case consume_loop clock 0 (pendingTimedCallbacks s) (eventQueue s) of
        (r, pend, q) \<Rightarrow> (r, s\<lparr>pendingTimedCallbacks := pend, eventQueue := q\<rparr>))"

text \<open>
  \<open>_eventThreadLoop\<close> on the items of \<open>_eventQueue\<close>: the items it hands to
  \<open>onEvent\<close> or calls, in order, and whether it has returned.  It returns at the first
  \<open>None\<close>; on an empty queue it waits in \<open>get\<close>.
\<close>

fun eventThreadLoop :: "'m queueItem option list \<Rightarrow> 'm queueItem list \<times> bool" where
  "eventThreadLoop [] = ([], False)"
| "eventThreadLoop (None # q) = ([], True)"
| "eventThreadLoop (Some msg # q) = (case eventThreadLoop q of (handled, ret) \<Rightarrow> (msg # handled, ret))"


section \<open>The bus: public calls\<close>

definition newConnectionId :: "'m MessageBus \<Rightarrow> ConnectionId \<times> 'm MessageBus" where
  "newConnectionId s =
     (let s1 = s\<lparr>connectionIdCounter := connectionIdCounter s + 1\<rparr>
      in (connectionIdCounter s1, s1))"

definition isDefinitelyDead :: "'m MessageBus \<Rightarrow> ConnectionId \<Rightarrow> bool" where
  "isDefinitelyDead s connectionId \<longleftrightarrow>
     connectionId \<notin> dom (connIdToOutgoingEndpoint s) \<and>
     connectionId \<notin> dom (connIdToIncomingEndpoint s)"

text \<open>\<open>_putOnSendQueue\<close>: \<open>None\<close> while \<open>put\<close> blocks, else the item is queued and one
  byte goes into the wake pipe.\<close>

definition putOnSendQueue :: "ConnectionId \<Rightarrow> sendMsg \<Rightarrow> 'm MessageBus \<Rightarrow> 'm MessageBus option" where
  "putOnSendQueue connectionId msg s =
     (case queue_put (ToSend connectionId msg) s of
        None \<Rightarrow> None
      | Some s1 \<Rightarrow> Some (s1\<lparr>messageToSendWakePipe := messageToSendWakePipe s1 + 1\<rparr>))"

definition connect :: "Endpoint \<Rightarrow> 'm MessageBus \<Rightarrow> (error + ConnectionId \<times> 'm MessageBus) option" where
  "connect endpoint s =
     (if \<not> started s then Some (Inl NotActive)
      else
        (case newConnectionId s of
           (connId, s1) \<Rightarrow>
             (let s2 = s1\<lparr>connIdToOutgoingEndpoint := (connIdToOutgoingEndpoint s1)(connId \<mapsto> endpoint),
                          connIdPendingOutgoingConnection :=
                            insert connId (connIdPendingOutgoingConnection s1)\<rparr>
              in case putOnSendQueue connId TriggerConnect s2 of
                   None \<Rightarrow> None
                 | Some s3 \<Rightarrow> Some (Inr (connId, s3)))))"

definition closeConnection :: "ConnectionId \<Rightarrow> 'm MessageBus \<Rightarrow> 'm MessageBus" where
  "closeConnection connectionId s =
     (if isDefinitelyDead s connectionId then s
      else scheduleEvent (TriggerDisconnect connectionId) s)"

text \<open>
  \<open>sendMessage\<close>.  \<open>serialize\<close> stands for the configured codec
  (\<open>typed_python.serialize\<close> or the serialization context); it is \<open>None\<close> where the
  codec raises.  The result is \<open>None\<close> while the call is blocked in \<open>put\<close>.
\<close>

definition sendMessage ::
  "('o \<Rightarrow> bytes option) \<Rightarrow> ConnectionId \<Rightarrow> 'o \<Rightarrow> 'm MessageBus
   \<Rightarrow> (error + bool \<times> 'm MessageBus) option" where
  "sendMessage serialize connectionId message s =
     (if \<not> started s then Some (Inl NotActive)
      else
        (case serialize message of
           None \<Rightarrow> Some (Inl SerializeError)
         | Some serializedMessage \<Rightarrow>
             if isDefinitelyDead s connectionId then Some (Inr (False, s))
             else
               (case putOnSendQueue connectionId (Payload serializedMessage) s of
                  None \<Rightarrow> None
                | Some s1 \<Rightarrow> Some (Inr (True, s1)))))"

section \<open>The bus: the socket thread\<close>

definition scheduleBytesForWrite :: "ConnectionId \<Rightarrow> bytes \<Rightarrow> 'm MessageBus \<Rightarrow> error + 'm MessageBus" where
  "scheduleBytesForWrite connId msg s =
     (if msg = [] then Inr s
      else
        (case (case connIdToOutgoingSocket s connId of
                 Some k \<Rightarrow> Some k
               | None \<Rightarrow> connIdToIncomingSocket s connId) of
           None \<Rightarrow>
             if connId \<notin> connIdPendingOutgoingConnection s then Inr s
             else Inr (s\<lparr>messagesForUnconnectedOutgoingConnection :=
                           (messagesForUnconnectedOutgoingConnection s)
                             (connId \<mapsto>
                                (case messagesForUnconnectedOutgoingConnection s connId of
                                   None \<Rightarrow> []
                                 | Some ms \<Rightarrow> ms) @ [msg])\<rparr>)
         | Some sslSock \<Rightarrow>
             (case encode msg (bus_extraMessageSizeCheck s) of
                Inl e \<Rightarrow> Inl e
              | Inr msgBytes \<Rightarrow>
                  Inr (s\<lparr>totalBytesPendingInOutputLoop :=
                            totalBytesPendingInOutputLoop s + int (length msgBytes),
                          socketToBytesNeedingWrite :=
                            (socketToBytesNeedingWrite s)
                              (sslSock \<mapsto>
                                 (case socketToBytesNeedingWrite s sslSock of
                                    None \<Rightarrow> msgBytes
                                  | Some bs \<Rightarrow> bs @ msgBytes))\<rparr>))))"

definition getConnectionIdFromSocket :: "'m MessageBus \<Rightarrow> sock \<Rightarrow> ConnectionId option" where
  "getConnectionIdFromSocket s socket =
     (case socketToIncomingConnId s socket of
        Some c \<Rightarrow> Some c
      | None \<Rightarrow> socketToOutgoingConnId s socket)"

text \<open>
  \<open>_markSocketClosed\<close>.  Each \<open>del d[k]\<close> raises \<open>KeyError\<close> when \<open>k\<close> is not in
  \<open>d\<close>; the call then ends with that error.  Closing the socket object itself happens
  outside the bus.
\<close>

definition markSocketClosed :: "sock \<Rightarrow> 'm MessageBus \<Rightarrow> error + 'm MessageBus" where
  "markSocketClosed socket s =
     (case socketToIncomingConnId s socket of
        Some connId \<Rightarrow>
          if connId \<in> dom (connIdToIncomingSocket s) \<and> connId \<in> dom (connIdToIncomingEndpoint s)
             \<and> socket \<in> dom (incomingSocketBuffers s)
          then Inr (fireEvent (IncomingConnectionClosed connId)
                 (s\<lparr>unauthenticatedConnections := unauthenticatedConnections s - {connId},
                    connIdToIncomingSocket := (connIdToIncomingSocket s)(connId := None),
                    socketToIncomingConnId := (socketToIncomingConnId s)(socket := None),
                    connIdToIncomingEndpoint := (connIdToIncomingEndpoint s)(connId := None),
                    incomingSocketBuffers := (incomingSocketBuffers s)(socket := None),
                    socketToBytesNeedingWrite := (socketToBytesNeedingWrite s)(socket := None),
                    allSockets := allSockets s - {socket}\<rparr>))
          else Inl KeyError
      | None \<Rightarrow>
          (case socketToOutgoingConnId s socket of
             Some connId \<Rightarrow>
               if connId \<in> dom (connIdToOutgoingEndpoint s) \<and> connId \<in> dom (connIdToOutgoingSocket s)
                  \<and> socket \<in> dom (incomingSocketBuffers s)
               then Inr (fireEvent (OutgoingConnectionClosed connId)
                      (s\<lparr>connIdToOutgoingEndpoint := (connIdToOutgoingEndpoint s)(connId := None),
                         socketToOutgoingConnId := (socketToOutgoingConnId s)(socket := None),
                         connIdToOutgoingSocket := (connIdToOutgoingSocket s)(connId := None),
                         incomingSocketBuffers := (incomingSocketBuffers s)(socket := None),
                         socketToBytesNeedingWrite := (socketToBytesNeedingWrite s)(socket := None),
                         allSockets := allSockets s - {socket}\<rparr>))
               else Inl KeyError
           | None \<Rightarrow> Inr (s\<lparr>allSockets := allSockets s - {socket}\<rparr>)))"

text \<open>
  \<open>_handleIncomingMessage\<close>.  \<open>deserialize\<close> stands for the configured codec, \<open>None\<close>
  where it raises.  In the last \<open>except\<close> the test \<open>serializedMessage != self._authToken\<close>
  compares \<open>bytes\<close> with a \<open>str\<close> or \<open>None\<close> and is always true, so the record is always
  written.
\<close>

definition handleIncomingMessage ::
  "(bytes \<Rightarrow> 'm option) \<Rightarrow> bytes \<Rightarrow> sock \<Rightarrow> 'm MessageBus \<Rightarrow> bool \<times> 'm MessageBus" where
  "handleIncomingMessage deserialize serializedMessage socket s =
     (case getConnectionIdFromSocket s socket of
        None \<Rightarrow> (False, s)
      | Some connId \<Rightarrow>
          if connId \<in> unauthenticatedConnections s then
            (case utf8_decode serializedMessage of
               None \<Rightarrow> (False, log_msg ERROR ''Failed to read incoming auth message for %s'' s)
             | Some str \<Rightarrow>
                 if Some str \<noteq> authToken s
                 then (False, log_msg ERROR ''Unauthorized socket connected to us.'' s)
                 else (True, log_msg DEBUG ''Connection {connId} authenticated successfully.''
                         (s\<lparr>unauthenticatedConnections := unauthenticatedConnections s - {connId}\<rparr>)))
          else
            (case deserialize serializedMessage of
               None \<Rightarrow> (False, log_msg ERROR ''Failed to deserialize a message'' s)
             | Some message \<Rightarrow> (True, fireEvent (IncomingMessage connId message) s)))"

text \<open>The loop \<open>for m in newMessages\<close> of \<open>_handleReadReadySocket\<close>.\<close>

fun handleNewMessages ::
  "(bytes \<Rightarrow> 'm option) \<Rightarrow> bytes list \<Rightarrow> sock \<Rightarrow> 'm MessageBus \<Rightarrow> error + 'm MessageBus" where
  "handleNewMessages deserialize [] socket s = Inr s"
| "handleNewMessages deserialize (m # ms) socket s =
     (case handleIncomingMessage deserialize m socket s of
        (True, s1) \<Rightarrow> handleNewMessages deserialize ms socket s1
      | (False, s1) \<Rightarrow> markSocketClosed socket s1)"

text \<open>What the operating system answers to \<open>accept\<close>, \<open>recv\<close>, \<open>send\<close> and to the
  connection attempt of \<open>_connectTo\<close>.\<close>

datatype acceptResult = AcceptOSError | Accepted sock Endpoint

datatype recvResult = SSLWantRead | SSLWantWrite | ConnectionReset | RecvException | Received bytes

datatype sendResult = SendWantRead | SendWantWrite | SendOSError | SendException | Sent nat

datatype connectResult = ConnectFailed | Connected sock

definition add_result :: "'a \<Rightarrow> error + 'm MessageBus \<Rightarrow> error + 'a \<times> 'm MessageBus" where
  "add_result r x = (case x of Inl e \<Rightarrow> Inl e | Inr s \<Rightarrow> Inr (r, s))"

text \<open>
  \<open>_handleReadReadySocket\<close>.  The result is \<open>True\<close>, \<open>False\<close> or Python's \<open>None\<close>.
  After \<open>SSLWantWriteError\<close> the name \<open>bytesReceived\<close> is unbound and the test that
  follows raises.
\<close>

definition handleReadReadySocket ::
  "(bytes \<Rightarrow> 'm option) \<Rightarrow> sock \<Rightarrow> acceptResult \<Rightarrow> recvResult \<Rightarrow> 'm MessageBus
   \<Rightarrow> error + bool option \<times> 'm MessageBus" where
  "handleReadReadySocket deserialize socketWithData acc rcv s =
     (if acceptSocket s = Some socketWithData then
        (case acc of
           AcceptOSError \<Rightarrow> Inr (Some False, log_msg INFO ''Failed to accept incoming socket: {exc}'' s)
         | Accepted newSocket newSocketSource \<Rightarrow>
             (case newConnectionId s of
                (connId, s1) \<Rightarrow>
                  Inr (Some True,
                    fireEvent (NewIncomingConnection newSocketSource connId)
                      (s1\<lparr>unauthenticatedConnections :=
                             (if authToken s1 \<noteq> None then insert connId (unauthenticatedConnections s1)
                              else unauthenticatedConnections s1),
                           connIdToIncomingSocket := (connIdToIncomingSocket s1)(connId \<mapsto> newSocket),
                           socketToIncomingConnId := (socketToIncomingConnId s1)(newSocket \<mapsto> connId),
                           connIdToIncomingEndpoint :=
                             (connIdToIncomingEndpoint s1)(connId \<mapsto> newSocketSource),
                           incomingSocketBuffers :=
                             (incomingSocketBuffers s1)
                               (newSocket \<mapsto> MessageBuffer_init (bus_extraMessageSizeCheck s1)),
                           allSockets := insert newSocket (allSockets s1)\<rparr>))))
      else if socketWithData \<in> allSockets s then
        (case (case rcv of
                 SSLWantRead \<Rightarrow> Inr (None, s)
               | SSLWantWrite \<Rightarrow> Inl UnboundLocalError
               | ConnectionReset \<Rightarrow> Inr (Some [], s)
               | RecvException \<Rightarrow>
                   Inr (Some [], log_msg ERROR ''MessageBus read socket shutting down'' s)
               | Received bs \<Rightarrow> Inr (Some bs, s)) of
           Inl e \<Rightarrow> Inl e
         | Inr (None, s0) \<Rightarrow> Inr (None, s0)
         | Inr (Some bytesReceived, s0) \<Rightarrow>
             if bytesReceived = [] then add_result (Some True) (markSocketClosed socketWithData s0)
             else
               (let s1 = s0\<lparr>totalBytesRead := totalBytesRead s0 + int (length bytesReceived)\<rparr>
                in case incomingSocketBuffers s1 socketWithData of
                     None \<Rightarrow> Inl KeyError
                   | Some messageBuffer \<Rightarrow>
                       (let oldBytecount = pendingBytecount messageBuffer
                        in case MessageBuffer_write messageBuffer bytesReceived of
                             (Inl CorruptMessageStream, mb) \<Rightarrow>
                               (let s2 = s1\<lparr>incomingSocketBuffers :=
                                             (incomingSocketBuffers s1)(socketWithData \<mapsto> mb)\<rparr>;
                                    s3 = (if getConnectionIdFromSocket s2 socketWithData \<noteq> None
                                          then log_msg ERROR
                                            ''Closing connection {connId} due to corrupted message stream.'' s2
                                          else s2)
                                in add_result (Some True) (markSocketClosed socketWithData s3))
                           | (Inl e, mb) \<Rightarrow> Inl e
                           | (Inr newMessages, mb) \<Rightarrow>
                               (let s2 = s1\<lparr>incomingSocketBuffers :=
                                             (incomingSocketBuffers s1)(socketWithData \<mapsto> mb)\<rparr>;
                                    s3 = s2\<lparr>totalBytesPendingInInputLoop :=
                                             totalBytesPendingInInputLoop s2
                                               + (pendingBytecount mb - oldBytecount)\<rparr>;
                                    s4 = s3\<lparr>totalBytesPendingInInputLoopHighWatermark :=
                                             max (totalBytesPendingInInputLoop s3)
                                                 (totalBytesPendingInInputLoopHighWatermark s3)\<rparr>
                                in add_result (Some True)
                                     (handleNewMessages deserialize newMessages socketWithData s4)))))
      else Inr (None,
             log_msg WARNING ''MessageBus got data on a socket it did not know about: %s'' s))"


text \<open>
  \<open>_handleMessageToSend\<close>.  \<open>now\<close> is the clock reading inside \<open>scheduleCallback\<close>
  and \<open>ident\<close> the identity of the closure \<open>lambda: self._connectTo(connId)\<close> that
  the call creates.
\<close>

definition handleMessageToSend :: "real \<Rightarrow> nat \<Rightarrow> 'm MessageBus \<Rightarrow> error + 'm MessageBus" where
  "handleMessageToSend now ident s =
     (case queue_get s of
        (None, s1) \<Rightarrow> Inr s1
      | (Some Disconnected, s1) \<Rightarrow> Inr s1
      | (Some (ToSend connId TriggerConnect), s1) \<Rightarrow>
          (case (case authToken s1 of
                   None \<Rightarrow> Inr s1
                 | Some token \<Rightarrow>
                     (case utf8_encode token of
                        None \<Rightarrow> Inl UnicodeEncodeError
                      | Some tokenBytes \<Rightarrow> scheduleBytesForWrite connId tokenBytes s1)) of
             Inl e \<Rightarrow> Inl e
           | Inr s2 \<Rightarrow> scheduleCallback (Some (ident, ConnectTo connId)) None None now s2)
      | (Some (ToSend connId (Payload msg)), s1) \<Rightarrow> scheduleBytesForWrite connId msg s1)"

text \<open>
  \<open>_handleEventToFire\<close>; \<open>queue.Queue.get_nowait\<close> raises \<open>queue.Empty\<close> on an empty
  queue.  The result says whether the call raised \<open>MessageBusLoopExit\<close>, which ends the
  socket thread.
\<close>

definition handleEventToFire :: "real \<Rightarrow> nat \<Rightarrow> 'm MessageBus \<Rightarrow> error + bool \<times> 'm MessageBus" where
  "handleEventToFire now ident s =
     (case eventsToFireQueue s of
        [] \<Rightarrow> Inl KeyError
      | readMessage # rest \<Rightarrow>
          (let s1 = s\<lparr>eventsToFireQueue := rest\<rparr> in
           case readMessage of
             TriggerDisconnect connId \<Rightarrow>
               if connId \<in> connIdPendingOutgoingConnection s1 then
                 add_result False
                   (scheduleCallback (Some (ident, ScheduleEvent readMessage)) None (Some (1 / 10)) now s1)
               else
                 (case connIdToOutgoingSocket s1 connId of
                    Some k \<Rightarrow> add_result False (markSocketClosed k s1)
                  | None \<Rightarrow>
                      (case connIdToIncomingSocket s1 connId of
                         Some k \<Rightarrow> add_result False (markSocketClosed k s1)
                       | None \<Rightarrow>
                           Inr (False,
                             log_msg ERROR
                               ''Internal Error: cannot find socket for connection ID {connId}'' s1)))
           | FireEvent (OutgoingConnectionEstablished connId) \<Rightarrow>
               (case connIdToOutgoingSocket s1 connId of
                  Some k \<Rightarrow>
                    Inr (False, fireEvent (OutgoingConnectionEstablished connId)
                                  (s1\<lparr>allSockets := insert k (allSockets s1)\<rparr>))
                | None \<Rightarrow>
                    Inr (False, fireEvent (OutgoingConnectionEstablished connId)
                                  (log_msg ERROR
                                     ''Internal Error: no known socket for connection {connId}'' s1)))
           | FireEvent Stopped \<Rightarrow> Inr (True, fireEvent Stopped s1)
           | FireEvent ev \<Rightarrow> Inr (False, fireEvent ev s1)))"

text \<open>
  \<open>_handleWriteReadySocket\<close>; \<open>Sent n\<close> is a \<open>send\<close> that accepted the first \<open>n\<close>
  bytes of the buffer.
\<close>

definition handleWriteReadySocket ::
  "sock \<Rightarrow> sendResult \<Rightarrow> 'm MessageBus \<Rightarrow> bool option \<times> 'm MessageBus" where
  "handleWriteReadySocket writeable res s =
     (case socketToBytesNeedingWrite s writeable of
        None \<Rightarrow> (None, s)
      | Some pending \<Rightarrow>
          (case (case res of
                   SendWantRead \<Rightarrow> (- 1, s)
                 | SendWantWrite \<Rightarrow>
                     (- 1, s\<lparr>socketsWithSslWantWrite := insert writeable (socketsWithSslWantWrite s)\<rparr>)
                 | SendOSError \<Rightarrow> (0, s)
                 | SendException \<Rightarrow>
                     (0, log_msg ERROR ''MessageBus write socket shutting down because of exception'' s)
                 | Sent n \<Rightarrow>
                     (int (min n (length pending)),
                      s\<lparr>wire := (wire s)(writeable := wire s writeable @ take n pending)\<rparr>)) of
             (bytesWritten, s1) \<Rightarrow>
               if bytesWritten = 0 then
                 (Some True,
                  s1\<lparr>socketToBytesNeedingWrite := (socketToBytesNeedingWrite s1)(writeable := None)\<rparr>)
               else if bytesWritten = - 1 then (Some False, s1)
               else if bytesWritten > 0 then
                 (let rest = drop (nat bytesWritten) pending;
                      s2 = s1\<lparr>totalBytesPendingInOutputLoop :=
                                 totalBytesPendingInOutputLoop s1 - bytesWritten,
                               totalBytesWritten := totalBytesWritten s1 + bytesWritten\<rparr>
                  in (Some True,
                      s2\<lparr>socketToBytesNeedingWrite :=
                            (if rest = [] then (socketToBytesNeedingWrite s2)(writeable := None)
                             else (socketToBytesNeedingWrite s2)(writeable \<mapsto> rest))\<rparr>))
               else (Some False, log_msg ERROR ''Internal Error: bytesWritten = {bytesWritten}'' s1)))"

section \<open>The bus: connecting\<close>

text \<open>The loop \<open>for m in messages\<close> of \<open>_connectTo\<close>.\<close>

fun flushMessages :: "ConnectionId \<Rightarrow> bytes list \<Rightarrow> 'm MessageBus \<Rightarrow> error + 'm MessageBus" where
  "flushMessages connId [] s = Inr s"
| "flushMessages connId (m # ms) s =
     (case scheduleBytesForWrite connId m s of
        Inl e \<Rightarrow> Inl e
      | Inr s1 \<Rightarrow> flushMessages connId ms s1)"

text \<open>
  \<open>_connectTo\<close>.  When the endpoint lookup raises, the handler itself raises on the
  unbound name \<open>endpoint\<close>.  When the flush raises (a payload too long for
  \<open>struct.pack\<close>), the socket is registered already and the handler deletes its entry
  twice, \<open>pop\<close> and then \<open>del\<close>, which raises \<open>KeyError\<close>.
\<close>

definition connectTo :: "ConnectionId \<Rightarrow> connectResult \<Rightarrow> 'm MessageBus \<Rightarrow> error + bool \<times> 'm MessageBus" where
  "connectTo connId res s =
     (case connIdToOutgoingEndpoint s connId of
        None \<Rightarrow> Inl UnboundLocalError
      | Some endpoint \<Rightarrow>
          (case res of
             Connected k \<Rightarrow>
               (let s1 = s\<lparr>socketToOutgoingConnId := (socketToOutgoingConnId s)(k \<mapsto> connId),
                            connIdToOutgoingSocket := (connIdToOutgoingSocket s)(connId \<mapsto> k),
                            incomingSocketBuffers :=
                              (incomingSocketBuffers s)
                                (k \<mapsto> MessageBuffer_init (bus_extraMessageSizeCheck s))\<rparr>
                in case (case messagesForUnconnectedOutgoingConnection s1 connId of
                           None \<Rightarrow> Inr s1
                         | Some messages \<Rightarrow>
                             flushMessages connId messages
                               (s1\<lparr>messagesForUnconnectedOutgoingConnection :=
                                      (messagesForUnconnectedOutgoingConnection s1)(connId := None)\<rparr>)) of
                     Inl e \<Rightarrow> Inl KeyError
                   | Inr s2 \<Rightarrow>
                       Inr (True,
                         scheduleEvent (FireEvent (OutgoingConnectionEstablished connId))
                           (s2\<lparr>connIdPendingOutgoingConnection :=
                                  connIdPendingOutgoingConnection s2 - {connId}\<rparr>)))
           | ConnectFailed \<Rightarrow>
               (let s1 = log_msg DEBUG ''Failed to Connect to {endpoint}: {str(e)}'' s;
                    s2 = s1\<lparr>connIdToOutgoingEndpoint := (connIdToOutgoingEndpoint s1)(connId := None),
                            connIdPendingOutgoingConnection :=
                              connIdPendingOutgoingConnection s1 - {connId},
                            messagesForUnconnectedOutgoingConnection :=
                              (messagesForUnconnectedOutgoingConnection s1)(connId := None)\<rparr>
                in if connId \<in> dom (connIdToOutgoingSocket s2) then Inl KeyError
                   else Inr (False, scheduleEvent (FireEvent (OutgoingConnectionFailed connId)) s2))))"


section \<open>Harness\<close>

text \<open>A caller feeding a byte stream to one \<open>MessageBuffer\<close> in successive \<open>write\<close>
  calls, as \<open>_handleReadReadySocket\<close> does with what \<open>recv\<close> returns: the payloads
  returned, in order, until a call raises.\<close>

fun write_all :: "MessageBuffer \<Rightarrow> bytes list \<Rightarrow> (error + bytes list) \<times> MessageBuffer" where
  "write_all mb [] = (Inr [], mb)"
| "write_all mb (c # cs) =
     (case MessageBuffer_write mb c of
        (Inl e, mb') \<Rightarrow> (Inl e, mb')
      | (Inr ms, mb') \<Rightarrow>
          (case write_all mb' cs of
             (Inl e, mb'') \<Rightarrow> (Inl e, mb'')
           | (Inr ms', mb'') \<Rightarrow> (Inr (ms @ ms'), mb'')))"

text \<open>The buffer of a decoder that has been fed \<open>fed\<close>, an incomplete prefix of one
  frame whose length prefix says \<open>n\<close>.\<close>

definition fed_state :: "int \<Rightarrow> bool \<Rightarrow> bytes \<Rightarrow> MessageBuffer" where
  "fed_state n extra fed =
     \<lparr>buffer = (if length fed < 4 then fed else drop 4 fed), messagesEver = 0,
      extraMessageSizeCheck = extra,
      curMessageLen = (if length fed < 4 then None else Some n)\<rparr>"

text \<open>Flipping bit \<open>i\<close> of a byte string, bit 0 being the least significant bit of the
  first byte.\<close>

definition flip_bit_at :: "nat \<Rightarrow> bytes \<Rightarrow> bytes" where
  "flip_bit_at i bs = bs[i div 8 := flip_bit (i mod 8) (bs ! (i div 8))]"

text \<open>
  One call on the bus, by a caller, the socket thread or the event thread, that returns
  normally; the label is the connection id the call allocates, if it allocates one.
\<close>

inductive bus_step :: "'m MessageBus \<Rightarrow> ConnectionId option \<Rightarrow> 'm MessageBus \<Rightarrow> bool" where
  step_connect: "connect endpoint s = Some (Inr (c, s')) \<Longrightarrow> bus_step s (Some c) s'"
| step_accept:
    "acceptSocket s = Some a \<Longrightarrow>
     handleReadReadySocket deserialize a (Accepted k src) rcv s = Inr (r, s') \<Longrightarrow>
     eventQueue s' = eventQueue s @ [Some (QEvent (NewIncomingConnection src c))] \<Longrightarrow>
     bus_step s (Some c) s'"
| step_read:
    "acceptSocket s \<noteq> Some k \<or> acc = AcceptOSError \<Longrightarrow>
     handleReadReadySocket deserialize k acc rcv s = Inr (r, s') \<Longrightarrow> bus_step s None s'"
| step_sendMessage: "sendMessage Some c b s = Some (Inr (r, s')) \<Longrightarrow> bus_step s None s'"
| step_closeConnection: "bus_step s None (closeConnection c s)"
| step_scheduleCallback:
    "scheduleCallback (map_option (\<lambda>i. (i, UserCode)) cb) atTimestamp delay now s = Inr s' \<Longrightarrow>
     bus_step s None s'"
| step_consumeCallbacks: "consumeCallbacksOnOutputThread clock s = (r, s') \<Longrightarrow> bus_step s None s'"
| step_handleMessageToSend: "handleMessageToSend now ident s = Inr s' \<Longrightarrow> bus_step s None s'"
| step_handleEventToFire: "handleEventToFire now ident s = Inr (r, s') \<Longrightarrow> bus_step s None s'"
| step_handleWriteReadySocket: "handleWriteReadySocket k res s = (r, s') \<Longrightarrow> bus_step s None s'"
| step_event:
    "eventQueue s = Some (QEvent ev) # q \<Longrightarrow> bus_step s None (s\<lparr>eventQueue := q\<rparr>)"
| step_user_callback:
    "eventQueue s = Some (QCallback (i, UserCode)) # q \<Longrightarrow> bus_step s None (s\<lparr>eventQueue := q\<rparr>)"
| step_scheduleEvent:
    "eventQueue s = Some (QCallback (i, ScheduleEvent item)) # q \<Longrightarrow>
     bus_step s None (scheduleEvent item (s\<lparr>eventQueue := q\<rparr>))"
| step_connectTo:
    "eventQueue s = Some (QCallback (i, ConnectTo c)) # q \<Longrightarrow>
     connectTo c res (s\<lparr>eventQueue := q\<rparr>) = Inr (r, s') \<Longrightarrow> bus_step s None s'"

text \<open>A run of such calls, with the connection ids allocated on the way, in order.\<close>

inductive bus_run :: "'m MessageBus \<Rightarrow> ConnectionId list \<Rightarrow> 'm MessageBus \<Rightarrow> bool" where
  run_nil: "bus_run s [] s"
| run_step:
    "bus_run s ids s1 \<Longrightarrow> bus_step s1 l s2 \<Longrightarrow>
     bus_run s (ids @ (case l of None \<Rightarrow> [] | Some c \<Rightarrow> [c])) s2"

text \<open>The bus as \<open>__init__\<close> leaves it, and \<open>start\<close>: \<open>a\<close> is the listening socket that
  \<open>_setupAcceptSocket\<close> has bound, if the bus listens.\<close>

definition MessageBus_init :: "pystr option \<Rightarrow> bool \<Rightarrow> 'm MessageBus" where
  "MessageBus_init token extra =
     \<lparr>authToken = token, started = False, bus_extraMessageSizeCheck = extra,
      acceptSocket = None,
      connIdToIncomingSocket = Map.empty, connIdToOutgoingSocket = Map.empty,
      socketToIncomingConnId = Map.empty, socketToOutgoingConnId = Map.empty,
      unauthenticatedConnections = {},
      connIdToIncomingEndpoint = Map.empty, connIdToOutgoingEndpoint = Map.empty,
      connIdPendingOutgoingConnection = {},
      messagesForUnconnectedOutgoingConnection = Map.empty,
      messageToSendWakePipe = 0, eventToFireWakePipe = 0, generalWakePipe = 0,
      totalBytesPendingInOutputLoop = 0, totalBytesWritten = 0,
      totalBytesPendingInInputLoop = 0, totalBytesPendingInInputLoopHighWatermark = 0,
      totalBytesRead = 0, connectionIdCounter = 0,
      messagesToSendQueue = [], maxBytes = None, eventsToFireQueue = [], eventQueue = [],
      socketToBytesNeedingWrite = Map.empty, socketsWithSslWantWrite = {}, allSockets = {},
      incomingSocketBuffers = Map.empty, pendingTimedCallbacks = [], logged = [],
      wire = (\<lambda>k. [])\<rparr>"

definition start :: "sock option \<Rightarrow> 'm MessageBus \<Rightarrow> 'm MessageBus" where
  "start a s =
     s\<lparr>acceptSocket := a,
       allSockets := (case a of None \<Rightarrow> allSockets s | Some k \<Rightarrow> insert k (allSockets s)),
       started := True\<rparr>"

text \<open>The event queue entries that delivering a list of pending pairs appends.\<close>

definition delivered :: "(real \<times> 'm callback option) list \<Rightarrow> 'm queueItem option list" where
  "delivered ps = map (\<lambda>(ts, cb). Some (QCallback (the cb))) (filter (\<lambda>(ts, cb). cb \<noteq> None) ps)"



text \<open>The bus once \<open>_handleReadReadySocket\<close> has taken \<open>n\<close> bytes from socket \<open>k\<close> and
  the buffer of \<open>k\<close> has become \<open>mb\<close>, before it looks at the payloads.\<close>

definition after_write :: "sock \<Rightarrow> nat \<Rightarrow> MessageBuffer \<Rightarrow> 'm MessageBus \<Rightarrow> 'm MessageBus" where
  "after_write k n mb s =
     (let old = pendingBytecount (the (incomingSocketBuffers s k));
          pend = totalBytesPendingInInputLoop s + (pendingBytecount mb - old)
      in s\<lparr>totalBytesRead := totalBytesRead s + int n,
           incomingSocketBuffers := (incomingSocketBuffers s)(k \<mapsto> mb),
           totalBytesPendingInInputLoop := pend,
           totalBytesPendingInInputLoopHighWatermark :=
             max pend (totalBytesPendingInInputLoopHighWatermark s)\<rparr>)"

section \<open>The frame codec\<close>

lemma bytes_int32_int32_bytes:
  "bytes_int32 (ucast w) (ucast (drop_bit 8 w)) (ucast (drop_bit 16 w)) (ucast (drop_bit 24 w)) = (w :: 32 word)"
  unfolding bytes_int32_def
proof (rule bit_word_eqI)
  fix n :: nat
  assume "n < LENGTH(32)"
  then have n: "n < 32" by simp
  consider "n < 8" | "8 \<le> n" "n < 16" | "16 \<le> n" "n < 24" | "24 \<le> n"
    by linarith
  then show "bit (ucast (ucast w :: byte) OR push_bit 8 (ucast (ucast (drop_bit 8 w) :: byte)) OR
                  push_bit 16 (ucast (ucast (drop_bit 16 w) :: byte)) OR
                  push_bit 24 (ucast (ucast (drop_bit 24 w) :: byte)) :: 32 word) n = bit w n"
    using n by cases (auto simp: bit_simps)
qed

lemma length_int32_bytes [simp]: "length (int32_bytes w) = 4"
  by (simp add: int32_bytes_def)

lemma unpack_int32_bytes: "struct_unpack_i (int32_bytes w) = Inr (sint w)"
  by (simp add: int32_bytes_def bytes_int32_int32_bytes)

lemma sint_word_of_int_32:
  "- (2 ^ 31) \<le> n \<Longrightarrow> n < 2 ^ 31 \<Longrightarrow> sint (word_of_int n :: 32 word) = n"
  by (simp add: sint_sbintrunc' signed_take_bit_int_eq_self_iff)

lemma pack_unpack:
  "struct_pack_i n = Inr bs \<Longrightarrow> struct_unpack_i bs = Inr n"
  by (auto simp: struct_pack_i_def unpack_int32_bytes sint_word_of_int_32 split: if_splits)

lemma py_slice_to_app: "py_slice_to (xs @ ys) (int (length xs)) = xs"
  by (simp add: py_slice_to_def py_index_def)

lemma py_del_to_app: "py_del_to (xs @ ys) (int (length xs)) = ys"
  by (simp add: py_del_to_def py_index_def)

lemma py_slice_app:
  "py_slice (xs @ ys @ zs) (int (length xs)) (int (length xs) + int (length ys)) = ys"
  by (simp add: py_slice_def py_index_def)

lemma read_prefix_Some: "curMessageLen mb = Some n \<Longrightarrow> read_prefix mb = mb"
  by (simp add: read_prefix_def)

lemma read_prefix_short:
  "curMessageLen mb = None \<Longrightarrow> length (buffer mb) < 4 \<Longrightarrow> read_prefix mb = mb"
  by (simp add: read_prefix_def MESSAGE_LEN_BYTES_def)

lemma read_prefix_header:
  assumes "curMessageLen mb = None" "buffer mb = int32_bytes w @ rest"
  shows "read_prefix mb = mb\<lparr>curMessageLen := Some (sint w), buffer := rest\<rparr>"
proof -
  have "py_slice_to (int32_bytes w @ rest) (int (length (int32_bytes w))) = int32_bytes w"
    by (rule py_slice_to_app)
  moreover have "py_del_to (int32_bytes w @ rest) (int (length (int32_bytes w))) = rest"
    by (rule py_del_to_app)
  ultimately show ?thesis
    using assms by (simp add: read_prefix_def MESSAGE_LEN_BYTES_def unpack_int32_bytes)
qed

lemma read_prefix_idem: "read_prefix (read_prefix mb) = read_prefix mb"
  by (auto simp: read_prefix_def split: sum.splits)

lemma write_loop_read_prefix: "write_loop mb ms = write_loop (read_prefix mb) ms"
  by (subst (1 2) write_loop.simps) (simp add: read_prefix_idem)

lemma write_loop_wait_prefix:
  "curMessageLen mb = None \<Longrightarrow> length (buffer mb) < 4 \<Longrightarrow> write_loop mb ms = (Inr ms, mb)"
  by (subst write_loop.simps) (simp add: read_prefix_short)

lemma write_loop_wait_body:
  "curMessageLen mb = Some n \<Longrightarrow>
   int (length (buffer mb)) < n + (if extraMessageSizeCheck mb then 4 else 0) \<Longrightarrow>
   write_loop mb ms = (Inr ms, mb)"
  by (subst write_loop.simps) (cases "extraMessageSizeCheck mb"; simp add: read_prefix_Some MESSAGE_LEN_BYTES_def)

lemma write_loop_frame_plain:
  assumes "curMessageLen mb = Some (int (length p))" "\<not> extraMessageSizeCheck mb"
    and "buffer mb = p @ rest"
  shows "write_loop mb ms =
         write_loop (mb\<lparr>messagesEver := messagesEver mb + 1, buffer := rest, curMessageLen := None\<rparr>)
                    (ms @ [p])"
  using assms
  by (subst write_loop.simps) (simp add: read_prefix_Some py_slice_to_app py_del_to_app)

lemma write_loop_frame_checked:
  assumes "curMessageLen mb = Some (int (length p))" "extraMessageSizeCheck mb"
    and "buffer mb = p @ int32_bytes w @ rest"
  shows "write_loop mb ms =
         (if sint w \<noteq> int (length p)
          then (Inl CorruptMessageStream,
                mb\<lparr>messagesEver := messagesEver mb + 1, buffer := rest, curMessageLen := None\<rparr>)
          else write_loop
                 (mb\<lparr>messagesEver := messagesEver mb + 1, buffer := rest, curMessageLen := None\<rparr>)
                 (ms @ [p]))"
proof -
  have s: "py_slice (p @ int32_bytes w @ rest) (int (length p)) (int (length p) + 4) = int32_bytes w"
    using py_slice_app [of p "int32_bytes w" rest] by simp
  have d: "py_del_to (p @ int32_bytes w @ rest) (int (length p) + 4) = rest"
    using py_del_to_app [of "p @ int32_bytes w" rest] by simp
  show ?thesis
    using assms
    by (subst write_loop.simps)
       (simp add: read_prefix_Some py_slice_to_app s d MESSAGE_LEN_BYTES_def unpack_int32_bytes)
qed


lemma mid_loop:
  assumes zr: "z @ r = p @ sfx"
    and sfx: "sfx = (if extra then int32_bytes w else [])"
    and w: "sint w = int (length p)"
  shows "write_loop \<lparr>buffer = z, messagesEver = k, extraMessageSizeCheck = extra,
                     curMessageLen = Some (int (length p))\<rparr> ms =
         (if r = [] then (Inr (ms @ [p]),
                          \<lparr>buffer = [], messagesEver = k + 1, extraMessageSizeCheck = extra,
                           curMessageLen = None\<rparr>)
          else (Inr ms, \<lparr>buffer = z, messagesEver = k, extraMessageSizeCheck = extra,
                         curMessageLen = Some (int (length p))\<rparr>))"
proof (cases "r = []")
  case True
  with zr have z: "z = p @ sfx" by simp
  show ?thesis
  proof (cases extra)
    case True
    with z sfx have "z = p @ int32_bytes w @ []" by simp
    then show ?thesis
      using \<open>r = []\<close> True w
      by (simp add: write_loop_frame_checked [where p = p and w = w and rest = "[]"]
            write_loop_wait_prefix)
  next
    case False
    with z sfx have "z = p @ []" by simp
    then show ?thesis
      using \<open>r = []\<close> False
      by (simp add: write_loop_frame_plain [where p = p and rest = "[]"] write_loop_wait_prefix)
  qed
next
  case False
  from zr have "length z + length r = length p + length sfx"
    by (metis length_append)
  with False have "length z < length p + length sfx"
    by (cases r) auto
  then have "int (length z) < int (length p) + (if extra then 4 else 0)"
    using sfx by (simp split: if_splits)
  then show ?thesis
    using False by (simp add: write_loop_wait_body)
qed


lemma split_prefix:
  assumes "y @ r = h @ rest" "length h \<le> length y"
  shows "\<exists>z. y = h @ z \<and> z @ r = rest"
  using assms by (auto simp: append_eq_append_conv2)

lemma write_step:
  assumes w: "sint w = int (length p)"
    and sfx: "sfx = (if extra then int32_bytes w else [])"
    and frame: "fed @ c @ r = int32_bytes w @ p @ sfx"
    and more: "c @ r \<noteq> []"
  shows "MessageBuffer_write (fed_state (int (length p)) extra fed) c =
         (if r = [] then (Inr [p],
                          \<lparr>buffer = [], messagesEver = 1, extraMessageSizeCheck = extra,
                           curMessageLen = None\<rparr>)
          else (Inr [], fed_state (int (length p)) extra (fed @ c)))"
proof (cases "length (fed @ c) < 4")
  case True
  have "r \<noteq> []"
  proof
    assume "r = []"
    with frame have "length (fed @ c) = length (int32_bytes w @ p @ sfx)" by simp
    with True show False by simp
  qed
  with True show ?thesis
    by (simp add: MessageBuffer_write_def fed_state_def write_loop_wait_prefix)
next
  case False
  then have len: "4 \<le> length (fed @ c)" by simp
  from frame have fr: "(fed @ c) @ r = int32_bytes w @ (p @ sfx)" by simp
  from split_prefix [OF fr] len obtain z
    where y: "fed @ c = int32_bytes w @ z" and zr: "z @ r = p @ sfx"
    by auto
  let ?mid = "\<lparr>buffer = z, messagesEver = 0, extraMessageSizeCheck = extra,
                curMessageLen = Some (int (length p))\<rparr>"
  have rp: "read_prefix ((fed_state (int (length p)) extra fed)
              \<lparr>buffer := buffer (fed_state (int (length p)) extra fed) @ c\<rparr>) = ?mid"
  proof (cases "length fed < 4")
    case True
    then show ?thesis
      using read_prefix_header [where w = w and rest = z and
          mb = "\<lparr>buffer = fed @ c, messagesEver = 0, extraMessageSizeCheck = extra,
                 curMessageLen = None\<rparr>"] y w
      by (simp add: fed_state_def)
  next
    case False
    with y have "drop 4 fed @ c = z"
      by (metis append_eq_conv_conj drop_append length_int32_bytes not_less diff_is_0_eq drop0 nat_le_linear)
    with False show ?thesis
      by (simp add: fed_state_def read_prefix_Some)
  qed
  have "MessageBuffer_write (fed_state (int (length p)) extra fed) c = write_loop ?mid []"
    unfolding MessageBuffer_write_def
    by (subst write_loop_read_prefix) (simp only: rp)
  also have "\<dots> = (if r = [] then (Inr ([] @ [p]),
                          \<lparr>buffer = [], messagesEver = 0 + 1, extraMessageSizeCheck = extra,
                           curMessageLen = None\<rparr>)
          else (Inr [], ?mid))"
    by (rule mid_loop [OF zr sfx w])
  also have "?mid = fed_state (int (length p)) extra (fed @ c)"
    using len y by (simp add: fed_state_def del: length_append)
  finally show ?thesis by simp
qed


lemma write_all_done:
  assumes "concat cs = []"
  shows "write_all \<lparr>buffer = [], messagesEver = k, extraMessageSizeCheck = extra,
                     curMessageLen = None\<rparr> cs =
         (Inr [], \<lparr>buffer = [], messagesEver = k, extraMessageSizeCheck = extra,
                   curMessageLen = None\<rparr>)"
  using assms
  by (induction cs) (simp_all add: MessageBuffer_write_def write_loop_wait_prefix)

lemma write_all_frame:
  assumes w: "sint w = int (length p)"
    and sfx: "sfx = (if extra then int32_bytes w else [])"
  shows "fed @ concat cs = int32_bytes w @ p @ sfx \<Longrightarrow> concat cs \<noteq> [] \<Longrightarrow>
         write_all (fed_state (int (length p)) extra fed) cs =
           (Inr [p], \<lparr>buffer = [], messagesEver = 1, extraMessageSizeCheck = extra,
                      curMessageLen = None\<rparr>)"
proof (induction cs arbitrary: fed)
  case Nil
  then show ?case by simp
next
  case (Cons c cs)
  from Cons.prems have fr: "fed @ c @ concat cs = int32_bytes w @ p @ sfx"
    and ne: "c @ concat cs \<noteq> []"
    by simp_all
  note step = write_step [OF w sfx fr ne]
  show ?case
  proof (cases "concat cs = []")
    case True
    with step show ?thesis
      by (simp add: write_all_done)
  next
    case False
    from fr have "(fed @ c) @ concat cs = int32_bytes w @ p @ sfx" by simp
    note ih = Cons.IH [OF this False]
    from step False
    have "MessageBuffer_write (fed_state (int (length p)) extra fed) c =
            (Inr [], fed_state (int (length p)) extra (fed @ c))"
      by (simp only: if_False)
    with ih show ?thesis
      by simp
  qed
qed

text \<open>
  Claim C2.  For every payload \<open>p\<close> shorter than \<open>2^31\<close> bytes, the empty one
  included, and either setting of the extra size check, \<open>encode\<close> returns a frame, and
  feeding that frame to a fresh \<open>MessageBuffer\<close> in any number of \<open>write\<close> calls,
  split anywhere, raises nothing, returns the payloads \<open>[p]\<close> in all, and leaves the
  buffer empty with no length pending.
\<close>

theorem C2_frame_roundtrip:
  assumes "length p < 2 ^ 31"
  shows "\<exists>frame. encode p extra = Inr frame \<and>
           (\<forall>cs. concat cs = frame \<longrightarrow>
              write_all (MessageBuffer_init extra) cs =
                (Inr [p], \<lparr>buffer = [], messagesEver = 1, extraMessageSizeCheck = extra,
                           curMessageLen = None\<rparr>))"
proof -
  define w :: "32 word" where "w = word_of_int (int (length p))"
  define sfx where "sfx = (if extra then int32_bytes w else [])"
  from assms have rng: "int (length p) < 2 ^ 31"
    by (metis of_nat_less_iff of_nat_numeral of_nat_power)
  then have w: "sint w = int (length p)"
    unfolding w_def by (intro sint_word_of_int_32) simp_all
  from rng have enc: "encode p extra = Inr (int32_bytes w @ p @ sfx)"
    by (simp add: encode_def struct_pack_i_def w_def sfx_def)
  have init: "MessageBuffer_init extra = fed_state (int (length p)) extra []"
    by (simp add: MessageBuffer_init_def fed_state_def)
  have "write_all (MessageBuffer_init extra) cs =
                (Inr [p], \<lparr>buffer = [], messagesEver = 1, extraMessageSizeCheck = extra,
                           curMessageLen = None\<rparr>)"
    if "concat cs = int32_bytes w @ p @ sfx" for cs
  proof -
    from that have "[] @ concat cs = int32_bytes w @ p @ sfx" by simp
    moreover from that have "concat cs \<noteq> []"
      by (metis length_int32_bytes append_is_Nil_conv list.size(3) zero_neq_numeral)
    ultimately show ?thesis
      unfolding init by (rule write_all_frame [OF w sfx_def])
  qed
  with enc show ?thesis by blast
qed

text \<open>
  Claim C2 at the payload \<open>01 02 03\<close>, extra size check on, fed in four pieces of which
  one is empty.
\<close>

theorem C2_frame_roundtrip_witness:
  "length [1, 2, 3 :: byte] < 2 ^ 31 \<and>
   encode [1, 2, 3] True = Inr [3, 0, 0, 0, 1, 2, 3, 3, 0, 0, 0] \<and>
   write_all (MessageBuffer_init True) [[3, 0], [0, 0, 1, 2], [], [3, 3, 0, 0, 0]] =
     (Inr [[1, 2, 3]], \<lparr>buffer = [], messagesEver = 1, extraMessageSizeCheck = True,
                         curMessageLen = None\<rparr>)"
proof -
  have len: "length [1, 2, 3 :: byte] < 2 ^ 31" by simp
  have enc: "encode [1, 2, 3] True = Inr [3, 0, 0, 0, 1, 2, 3, 3, 0, 0, 0]"
    by (simp add: encode_def struct_pack_i_def int32_bytes_def)
  from C2_frame_roundtrip [OF len, of True] enc
  have "concat cs = [3, 0, 0, 0, 1, 2, 3, 3, 0, 0, 0 :: byte] \<Longrightarrow>
              write_all (MessageBuffer_init True) cs =
                (Inr [[1, 2, 3]], \<lparr>buffer = [], messagesEver = 1, extraMessageSizeCheck = True,
                           curMessageLen = None\<rparr>)" for cs
    by simp
  from this [of "[[3, 0], [0, 0, 1, 2], [], [3, 3, 0, 0, 0]]"]
  have "write_all (MessageBuffer_init True) [[3, 0], [0, 0, 1, 2], [], [3, 3, 0, 0, 0]] =
     (Inr [[1, 2, 3]], \<lparr>buffer = [], messagesEver = 1, extraMessageSizeCheck = True,
                         curMessageLen = None\<rparr>)"
    by simp
  with len enc show ?thesis by simp
qed


lemma encode_checked:
  assumes "encode p True = Inr f"
  shows "\<exists>w. f = int32_bytes w @ p @ int32_bytes w \<and> sint w = int (length p)"
proof -
  let ?w = "word_of_int (int (length p)) :: 32 word"
  from assms have rng: "int (length p) < 2 ^ 31" and f: "f = int32_bytes ?w @ p @ int32_bytes ?w"
    by (auto simp: encode_def struct_pack_i_def split: if_splits)
  from rng have "sint ?w = int (length p)"
    by (intro sint_word_of_int_32) simp_all
  with f show ?thesis by blast
qed

lemma curMessageLen_None_update:
  "curMessageLen mb = None \<Longrightarrow> mb\<lparr>curMessageLen := None\<rparr> = mb"
  by simp

lemma write_loop_good_frames:
  "curMessageLen mb = None \<Longrightarrow> extraMessageSizeCheck mb \<Longrightarrow>
   buffer mb = concat fs @ rest \<Longrightarrow> map (\<lambda>p. encode p True) ps = map Inr fs \<Longrightarrow>
   write_loop mb ms =
     write_loop (mb\<lparr>messagesEver := messagesEver mb + int (length ps), buffer := rest\<rparr>) (ms @ ps)"
proof (induction ps arbitrary: fs mb ms)
  case Nil
  then have "mb\<lparr>messagesEver := messagesEver mb + int (length ([] :: bytes list)), buffer := rest\<rparr> = mb"
    by simp
  then show ?case by simp
next
  case (Cons p ps)
  from Cons.prems(4) obtain f fs' where fs: "fs = f # fs'"
    and f: "encode p True = Inr f" and fs': "map (\<lambda>p. encode p True) ps = map Inr fs'"
    by (cases fs) auto
  from encode_checked [OF f] obtain w
    where fw: "f = int32_bytes w @ p @ int32_bytes w" and w: "sint w = int (length p)"
    by blast
  let ?tail = "concat fs' @ rest"
  let ?mb1 = "mb\<lparr>curMessageLen := Some (sint w), buffer := p @ int32_bytes w @ ?tail\<rparr>"
  let ?mb2 = "?mb1\<lparr>messagesEver := messagesEver ?mb1 + 1, buffer := ?tail, curMessageLen := None\<rparr>"
  have "buffer mb = int32_bytes w @ (p @ int32_bytes w @ ?tail)"
    using Cons.prems(3) fs fw by simp
  from read_prefix_header [OF Cons.prems(1) this]
  have "write_loop mb ms = write_loop ?mb1 ms"
    by (subst write_loop_read_prefix) simp
  also have "\<dots> = write_loop ?mb2 (ms @ [p])"
    using write_loop_frame_checked [where mb = ?mb1 and p = p and w = w and rest = ?tail and ms = ms]
      w Cons.prems(2)
    by simp
  also have "\<dots> = write_loop (?mb2\<lparr>messagesEver := messagesEver ?mb2 + int (length ps),
                                      buffer := rest\<rparr>) ((ms @ [p]) @ ps)"
    by (rule Cons.IH [OF _ _ _ fs']) (simp_all add: Cons.prems(2))
  finally show ?case
    using curMessageLen_None_update [OF Cons.prems(1)] by (simp add: add.assoc)
qed

text \<open>
  Claim C10.  A \<open>write\<close> whose size check fails is not atomic.  Take a buffer at a
  frame boundary with the extra size check on, and write the frames of payloads \<open>ps\<close>,
  then a frame whose leading length is the length of \<open>q\<close> and whose trailing length
  differs, then any bytes \<open>rest\<close>.  The call raises \<open>CorruptMessageStream\<close>; the
  buffer it leaves holds \<open>rest\<close> only (the corrupt frame is gone), \<open>messagesEver\<close>
  has counted the payloads \<open>ps\<close> and the corrupt frame, and the payloads \<open>ps\<close>, which that
  same call had completed, are nowhere: the result is the exception alone.
\<close>

theorem C10_write_not_atomic:
  assumes "curMessageLen mb = None" "extraMessageSizeCheck mb" "buffer mb = []"
    and "map (\<lambda>p. encode p True) ps = map Inr fs"
    and "sint w = int (length q)" "sint t \<noteq> int (length q)"
  shows "MessageBuffer_write mb (concat fs @ (int32_bytes w @ q @ int32_bytes t) @ rest) =
           (Inl CorruptMessageStream,
            mb\<lparr>messagesEver := messagesEver mb + int (length ps) + 1, buffer := rest\<rparr>)"
proof -
  let ?bad = "int32_bytes w @ q @ int32_bytes t @ rest"
  let ?mb0 = "mb\<lparr>buffer := concat fs @ ?bad\<rparr>"
  let ?mb1 = "?mb0\<lparr>messagesEver := messagesEver ?mb0 + int (length ps), buffer := ?bad\<rparr>"
  let ?mb2 = "?mb1\<lparr>curMessageLen := Some (sint w), buffer := q @ int32_bytes t @ rest\<rparr>"
  have "MessageBuffer_write mb (concat fs @ (int32_bytes w @ q @ int32_bytes t) @ rest) =
          write_loop ?mb0 []"
    using assms(3) by (simp add: MessageBuffer_write_def)
  also have "\<dots> = write_loop ?mb1 ([] @ ps)"
    by (rule write_loop_good_frames [OF _ _ _ assms(4)]) (simp_all add: assms)
  also have "\<dots> = write_loop ?mb2 ps"
    using read_prefix_header [where mb = ?mb1 and w = w and rest = "q @ int32_bytes t @ rest"]
      assms(1)
    by (subst write_loop_read_prefix) simp
  also have "\<dots> = (Inl CorruptMessageStream,
            mb\<lparr>messagesEver := messagesEver mb + int (length ps) + 1, buffer := rest\<rparr>)"
    using write_loop_frame_checked [where mb = ?mb2 and p = q and w = t and rest = rest and ms = ps]
      assms curMessageLen_None_update [OF assms(1)]
    by simp
  finally show ?thesis .
qed


lemma ucast_drop_flip:
  fixes w :: "32 word"
  assumes "k \<le> 24"
  shows "(ucast (drop_bit k (flip_bit i w)) :: byte) =
         (if k \<le> i \<and> i < k + 8 then flip_bit (i - k) (ucast (drop_bit k w)) else ucast (drop_bit k w))"
  using assms
  by (auto intro!: bit_word_eqI simp: bit_simps bit_flip_bit_iff)

lemma flip_int32_bytes:
  assumes "i < 32"
  shows "flip_bit_at i (int32_bytes w) = int32_bytes (flip_bit i w)"
proof -
  consider "i < 8" | "8 \<le> i" "i < 16" | "16 \<le> i" "i < 24" | "24 \<le> i"
    by linarith
  then show ?thesis
  proof cases
    case 1
    then have "i div 8 = 0" "i mod 8 = i" by simp_all
    with 1 show ?thesis
      using ucast_drop_flip [of 0 i w] ucast_drop_flip [of 8 i w]
        ucast_drop_flip [of 16 i w] ucast_drop_flip [of 24 i w]
      by (simp add: flip_bit_at_def int32_bytes_def)
  next
    case 2
    then have "i div 8 = 1" "i mod 8 = i - 8" by presburger+
    with 2 show ?thesis
      using ucast_drop_flip [of 0 i w] ucast_drop_flip [of 8 i w]
        ucast_drop_flip [of 16 i w] ucast_drop_flip [of 24 i w]
      by (simp add: flip_bit_at_def int32_bytes_def)
  next
    case 3
    then have "i div 8 = 2" "i mod 8 = i - 16" by presburger+
    with 3 show ?thesis
      using ucast_drop_flip [of 0 i w] ucast_drop_flip [of 8 i w]
        ucast_drop_flip [of 16 i w] ucast_drop_flip [of 24 i w]
      by (simp add: flip_bit_at_def int32_bytes_def)
  next
    case 4
    with assms have "i div 8 = 3" "i mod 8 = i - 24" by presburger+
    with 4 assms show ?thesis
      using ucast_drop_flip [of 0 i w] ucast_drop_flip [of 8 i w]
        ucast_drop_flip [of 16 i w] ucast_drop_flip [of 24 i w]
      by (simp add: flip_bit_at_def int32_bytes_def)
  qed
qed

lemma sint_flip_ne: 
  fixes w :: "32 word"
  assumes "i < 32" shows "sint (flip_bit i w) \<noteq> sint w"
proof
  assume "sint (flip_bit i w) = sint w"
  then have "word_of_int (sint (flip_bit i w)) = (word_of_int (sint w) :: 32 word)" by simp
  then have "flip_bit i w = w" by simp
  then have "bit (flip_bit i w) i = bit w i" by simp
  with assms show False by (simp add: bit_flip_bit_iff)
qed

lemma flip_clear_bit_int:
  fixes n :: int
  assumes "0 \<le> n" "n < 2 ^ 31" "\<not> bit n i" "i < 31"
  shows "flip_bit i n = n + 2 ^ i" "flip_bit i n < 2 ^ 31"
proof -
  show "flip_bit i n = n + 2 ^ i"
    using assms(3) by (simp add: flip_bit_eq_if set_bit_eq)
  have "(2::int) ^ i < 2 ^ 31" using assms(4) by (intro power_strict_increasing) simp_all
  then have "n XOR push_bit i 1 < 2 ^ 31"
    using assms(1,2) by (intro XOR_upper) (simp_all add: push_bit_eq_mult)
  then show "flip_bit i n < 2 ^ 31"
    by (simp add: flip_bit_int_def)
qed

lemma word_flip_of_int:
  "flip_bit i (word_of_int n :: 32 word) = word_of_int (flip_bit i n)"
  by (rule bit_word_eqI) (auto simp: bit_simps bit_flip_bit_iff)


lemma flip_bit_at_append1:
  "i div 8 < length xs \<Longrightarrow> flip_bit_at i (xs @ ys) = flip_bit_at i xs @ ys"
  by (simp add: flip_bit_at_def list_update_append1 nth_append)

lemma flip_bit_at_append2:
  "flip_bit_at (8 * length xs + i) (xs @ ys) = xs @ flip_bit_at i ys"
  by (simp add: flip_bit_at_def list_update_append nth_append)

text \<open>
  Claim C5, amended.  With the extra size check on and a payload shorter than \<open>2^31\<close>
  bytes, flipping any one bit of the trailing length field of the frame makes \<open>write\<close>
  raise \<open>CorruptMessageStream\<close>.  Flipping a bit of the leading length field need not:
  when the flip turns a 0 bit other than the sign bit into 1, \<open>write\<close> raises nothing
  and returns no payload, the decoder waits for the bytes the larger length announces.
\<close>

theorem C5_trailing_flip_detected:
  assumes len: "length p < 2 ^ 31" and enc: "encode p True = Inr frame" and i: "i < 32"
  shows "fst (MessageBuffer_write (MessageBuffer_init True)
                (flip_bit_at (8 * (4 + length p) + i) frame)) = Inl CorruptMessageStream
       \<and> (i < 31 \<and> \<not> bit (int (length p)) i \<longrightarrow>
            fst (MessageBuffer_write (MessageBuffer_init True) (flip_bit_at i frame)) = Inr [])"
proof
  from encode_checked [OF enc] obtain w
    where fw: "frame = int32_bytes w @ p @ int32_bytes w" and w: "sint w = int (length p)"
    by blast
  let ?init = "MessageBuffer_init True"
  have "flip_bit_at (8 * (4 + length p) + i) frame =
          int32_bytes w @ p @ int32_bytes (flip_bit i w)"
    using flip_bit_at_append2 [of "int32_bytes w @ p" i "int32_bytes w"] i
    by (simp add: fw flip_int32_bytes)
  then have "MessageBuffer_write ?init (flip_bit_at (8 * (4 + length p) + i) frame) =
               write_loop (?init\<lparr>buffer := int32_bytes w @ p @ int32_bytes (flip_bit i w) @ []\<rparr>) []"
    by (simp add: MessageBuffer_write_def MessageBuffer_init_def)
  also have "\<dots> = write_loop (?init\<lparr>curMessageLen := Some (sint w),
                                       buffer := p @ int32_bytes (flip_bit i w) @ []\<rparr>) []"
    using read_prefix_header [where w = w and rest = "p @ int32_bytes (flip_bit i w) @ []"
        and mb = "?init\<lparr>buffer := int32_bytes w @ p @ int32_bytes (flip_bit i w) @ []\<rparr>"]
    by (subst write_loop_read_prefix) (simp add: MessageBuffer_init_def)
  also have "fst \<dots> = Inl CorruptMessageStream"
    using write_loop_frame_checked [where p = p and w = "flip_bit i w" and rest = "[]" and ms = "[]"
        and mb = "?init\<lparr>curMessageLen := Some (sint w),
                          buffer := p @ int32_bytes (flip_bit i w) @ []\<rparr>"]
      w sint_flip_ne [OF i, of w]
    by (simp add: MessageBuffer_init_def)
  finally show "fst (MessageBuffer_write ?init (flip_bit_at (8 * (4 + length p) + i) frame)) =
                  Inl CorruptMessageStream" .
  show "i < 31 \<and> \<not> bit (int (length p)) i \<longrightarrow>
            fst (MessageBuffer_write ?init (flip_bit_at i frame)) = Inr []"
  proof
    assume a: "i < 31 \<and> \<not> bit (int (length p)) i"
    from len have rng: "int (length p) < 2 ^ 31"
      by (metis of_nat_less_iff of_nat_numeral of_nat_power)
    have "word_of_int (sint w) = w" by simp
    with w have weq: "w = word_of_int (int (length p))" by simp
    have fl: "flip_bit i (int (length p)) = int (length p) + 2 ^ i"
      and fb: "flip_bit i (int (length p)) < 2 ^ 31"
      using flip_clear_bit_int [of "int (length p)" i] rng a by simp_all
    have "- (2 ^ 31) \<le> flip_bit i (int (length p))"
      unfolding fl by (simp add: add_increasing2)
    from sint_word_of_int_32 [OF this fb]
    have "sint (flip_bit i w) = int (length p) + 2 ^ i"
      unfolding weq word_flip_of_int fl .
    then have big: "int (length p) + 4 < sint (flip_bit i w) + 4"
      by simp
    have "flip_bit_at i frame = int32_bytes (flip_bit i w) @ p @ int32_bytes w"
      using flip_bit_at_append1 [of i "int32_bytes w" "p @ int32_bytes w"] i
      by (simp add: fw flip_int32_bytes)
    then have "MessageBuffer_write ?init (flip_bit_at i frame) =
               write_loop (?init\<lparr>buffer := int32_bytes (flip_bit i w) @ p @ int32_bytes w\<rparr>) []"
      by (simp add: MessageBuffer_write_def MessageBuffer_init_def)
    also have "\<dots> = write_loop (?init\<lparr>curMessageLen := Some (sint (flip_bit i w)),
                                       buffer := p @ int32_bytes w\<rparr>) []"
      using read_prefix_header [where w = "flip_bit i w" and rest = "p @ int32_bytes w"
          and mb = "?init\<lparr>buffer := int32_bytes (flip_bit i w) @ p @ int32_bytes w\<rparr>"]
      by (subst write_loop_read_prefix) (simp add: MessageBuffer_init_def)
    also have "fst \<dots> = Inr []"
      using big
      by (subst write_loop_wait_body [where n = "sint (flip_bit i w)"])
         (simp_all add: MessageBuffer_init_def)
    finally show "fst (MessageBuffer_write ?init (flip_bit_at i frame)) = Inr []" .
  qed
qed


text \<open>
  Claim C5 as stated fails on the empty payload: with bit 0 of the leading length flipped,
  \<open>write\<close> returns the empty list and keeps waiting; with the sign bit flipped, it
  raises \<open>struct.error\<close>, not \<open>CorruptMessageStream\<close>.
\<close>

theorem C5_flip_counterexample:
  "encode [] True = Inr [0, 0, 0, 0, 0, 0, 0, 0] \<and>
   MessageBuffer_write (MessageBuffer_init True) (flip_bit_at 0 [0, 0, 0, 0, 0, 0, 0, 0]) =
     (Inr [], \<lparr>buffer = [0, 0, 0, 0], messagesEver = 0, extraMessageSizeCheck = True,
               curMessageLen = Some 1\<rparr>) \<and>
   fst (MessageBuffer_write (MessageBuffer_init True) (flip_bit_at 0 [0, 0, 0, 0, 0, 0, 0, 0]))
     \<noteq> Inl CorruptMessageStream \<and>
   fst (MessageBuffer_write (MessageBuffer_init True) (flip_bit_at 31 [0, 0, 0, 0, 0, 0, 0, 0]))
     = Inl StructError"
  by (simp add: encode_def struct_pack_i_def int32_bytes_def flip_bit_at_def
        MessageBuffer_write_def MessageBuffer_init_def write_loop.simps read_prefix_def
        MESSAGE_LEN_BYTES_def py_slice_to_def py_slice_def py_del_to_def py_index_def
        bytes_int32_def flip_bit_eq_xor)

text \<open>
  Claim C5, amended, at the payload \<open>07\<close> and bit 3 of either length field.
\<close>

theorem C5_trailing_flip_witness:
  "length [7 :: byte] < 2 ^ 31 \<and> encode [7] True = Inr [1, 0, 0, 0, 7, 1, 0, 0, 0] \<and> (3 :: nat) < 32 \<and>
   fst (MessageBuffer_write (MessageBuffer_init True)
          (flip_bit_at (8 * (4 + length [7 :: byte]) + 3) [1, 0, 0, 0, 7, 1, 0, 0, 0]))
     = Inl CorruptMessageStream \<and>
   (3 :: nat) < 31 \<and> \<not> bit (int (length [7 :: byte])) 3 \<and>
   fst (MessageBuffer_write (MessageBuffer_init True) (flip_bit_at 3 [1, 0, 0, 0, 7, 1, 0, 0, 0]))
     = Inr []"
proof -
  have len: "length [7 :: byte] < 2 ^ 31" by simp
  have enc: "encode [7] True = Inr [1, 0, 0, 0, 7, 1, 0, 0, 0]"
    by (simp add: encode_def struct_pack_i_def int32_bytes_def)
  have i: "(3 :: nat) < 32" by simp
  have b: "(3 :: nat) < 31 \<and> \<not> bit (int (length [7 :: byte])) 3" by (simp add: bit_iff_odd)
  from C5_trailing_flip_detected [OF len enc i] b len enc show ?thesis
    by simp
qed

text \<open>
  Claim C10 at one good frame, a corrupt frame (length 2, trailing length 3) and one
  further byte.
\<close>

theorem C10_write_not_atomic_witness:
  "curMessageLen (MessageBuffer_init True) = None \<and> extraMessageSizeCheck (MessageBuffer_init True) \<and>
   buffer (MessageBuffer_init True) = [] \<and>
   map (\<lambda>p. encode p True) [[1]] = map Inr [[1, 0, 0, 0, 1, 1, 0, 0, 0]] \<and>
   sint (2 :: 32 word) = int (length [5, 6 :: byte]) \<and> sint (3 :: 32 word) \<noteq> int (length [5, 6 :: byte]) \<and>
   MessageBuffer_write (MessageBuffer_init True)
     [1, 0, 0, 0, 1, 1, 0, 0, 0,   2, 0, 0, 0, 5, 6, 3, 0, 0, 0,   9] =
     (Inl CorruptMessageStream,
      \<lparr>buffer = [9], messagesEver = 2, extraMessageSizeCheck = True, curMessageLen = None\<rparr>)"
proof -
  have h1: "curMessageLen (MessageBuffer_init True) = None"
    and h2: "extraMessageSizeCheck (MessageBuffer_init True)"
    and h3: "buffer (MessageBuffer_init True) = []"
    by (simp_all add: MessageBuffer_init_def)
  have h4: "map (\<lambda>p. encode p True) [[1]] = map Inr [[1, 0, 0, 0, 1, 1, 0, 0, 0]]"
    by (simp add: encode_def struct_pack_i_def int32_bytes_def)
  have h5: "sint (2 :: 32 word) = int (length [5, 6 :: byte])" by simp
  have h6: "sint (3 :: 32 word) \<noteq> int (length [5, 6 :: byte])" by simp
  from C10_write_not_atomic [OF h1 h2 h3 h4 h5 h6, of "[9]"] h1 h2 h3 h4 h5 h6 show ?thesis
    by (simp add: int32_bytes_def MessageBuffer_init_def)
qed

section \<open>Connection ids, sendMessage, scheduleCallback\<close>

lemma counter_markSocketClosed:
  "markSocketClosed k s = Inr s' \<Longrightarrow> connectionIdCounter s' = connectionIdCounter s"
  by (auto simp: markSocketClosed_def fireEvent_def split: option.splits if_splits)

lemma counter_handleIncomingMessage:
  "handleIncomingMessage d m k s = (r, s') \<Longrightarrow> connectionIdCounter s' = connectionIdCounter s"
  by (auto simp: handleIncomingMessage_def fireEvent_def log_msg_def split: option.splits if_splits)

lemma counter_handleNewMessages:
  "handleNewMessages d ms k s = Inr s' \<Longrightarrow> connectionIdCounter s' = connectionIdCounter s"
proof (induction ms arbitrary: s)
  case Nil
  then show ?case by simp
next
  case (Cons m ms)
  obtain r s1 where h: "handleIncomingMessage d m k s = (r, s1)" by force
  note c1 = counter_handleIncomingMessage [OF h]
  show ?case
  proof (cases r)
    case True
    with Cons.prems h have "handleNewMessages d ms k s1 = Inr s'" by simp
    from Cons.IH [OF this] c1 show ?thesis by simp
  next
    case False
    with Cons.prems h have "markSocketClosed k s1 = Inr s'" by simp
    from counter_markSocketClosed [OF this] c1 show ?thesis by simp
  qed
qed

lemma counter_scheduleBytesForWrite:
  "scheduleBytesForWrite c m s = Inr s' \<Longrightarrow> connectionIdCounter s' = connectionIdCounter s"
  by (auto simp: scheduleBytesForWrite_def split: option.splits if_splits sum.splits)

lemma counter_flushMessages:
  "flushMessages c ms s = Inr s' \<Longrightarrow> connectionIdCounter s' = connectionIdCounter s"
  by (induction ms arbitrary: s) (auto split: sum.splits dest: counter_scheduleBytesForWrite)

lemma counter_scheduleCallback:
  "scheduleCallback cb a d now s = Inr s' \<Longrightarrow> connectionIdCounter s' = connectionIdCounter s"
  by (auto simp: scheduleCallback_def log_msg_def Let_def split: option.splits if_splits)

lemma counter_handleReadReadySocket:
  assumes "handleReadReadySocket d k acc rcv s = Inr (r, s')"
  shows "connectionIdCounter s' =
         (if acceptSocket s = Some k \<and> acc \<noteq> AcceptOSError then connectionIdCounter s + 1
          else connectionIdCounter s)"
  using assms
  by (auto simp: handleReadReadySocket_def newConnectionId_def fireEvent_def log_msg_def Let_def
        add_result_def
      split: if_splits acceptResult.splits recvResult.splits option.splits sum.splits prod.splits
        error.splits
      dest: counter_markSocketClosed counter_handleNewMessages)

lemma counter_connect:
  "connect ep s = Some (Inr (c, s')) \<Longrightarrow>
   c = connectionIdCounter s + 1 \<and> connectionIdCounter s' = c"
  by (auto simp: connect_def newConnectionId_def putOnSendQueue_def queue_put_def Let_def
      split: if_splits option.splits)

lemma accept_allocates:
  assumes "acceptSocket s = Some a"
    and "handleReadReadySocket d a (Accepted k src) rcv s = Inr (r, s')"
    and "eventQueue s' = eventQueue s @ [Some (QEvent (NewIncomingConnection src c))]"
  shows "c = connectionIdCounter s + 1 \<and> connectionIdCounter s' = c"
  using assms
  by (auto simp: handleReadReadySocket_def newConnectionId_def fireEvent_def Let_def)

lemma counter_sendMessage:
  "sendMessage ser c m s = Some (Inr (r, s')) \<Longrightarrow> connectionIdCounter s' = connectionIdCounter s"
  by (auto simp: sendMessage_def putOnSendQueue_def queue_put_def
      split: if_splits option.splits)

lemma counter_consumeCallbacks:
  "consumeCallbacksOnOutputThread clock s = (r, s') \<Longrightarrow>
   connectionIdCounter s' = connectionIdCounter s"
  by (auto simp: consumeCallbacksOnOutputThread_def split: prod.splits)

lemma counter_handleMessageToSend:
  "handleMessageToSend now i s = Inr s' \<Longrightarrow> connectionIdCounter s' = connectionIdCounter s"
  by (auto simp: handleMessageToSend_def queue_get_def
      split: list.splits sendItem.splits sendMsg.splits option.splits sum.splits
      dest!: counter_scheduleCallback counter_scheduleBytesForWrite)

lemma counter_handleEventToFire:
  "handleEventToFire now i s = Inr (r, s') \<Longrightarrow> connectionIdCounter s' = connectionIdCounter s"
  by (auto simp: handleEventToFire_def add_result_def fireEvent_def log_msg_def Let_def
      split: list.splits fireItem.splits MessageBusEvent.splits option.splits sum.splits if_splits
      dest!: counter_scheduleCallback counter_markSocketClosed)

lemma counter_handleWriteReadySocket:
  "handleWriteReadySocket k res s = (r, s') \<Longrightarrow> connectionIdCounter s' = connectionIdCounter s"
  by (auto simp: handleWriteReadySocket_def log_msg_def Let_def
      split: option.splits sendResult.splits if_splits prod.splits)

lemma counter_connectTo:
  "connectTo c res s = Inr (r, s') \<Longrightarrow> connectionIdCounter s' = connectionIdCounter s"
  by (auto simp: connectTo_def scheduleEvent_def log_msg_def Let_def
      split: option.splits connectResult.splits sum.splits if_splits
      dest!: counter_flushMessages)

lemma bus_step_counter:
  assumes "bus_step s l s'"
  shows "case l of None \<Rightarrow> connectionIdCounter s' = connectionIdCounter s
         | Some c \<Rightarrow> c = connectionIdCounter s + 1 \<and> connectionIdCounter s' = c"
  using assms
proof cases
  case (step_connect endpoint c)
  then show ?thesis using counter_connect by simp
next
  case (step_accept a deserialize k src rcv r c)
  then show ?thesis using accept_allocates by simp
next
  case (step_read k acc deserialize rcv r)
  then show ?thesis using counter_handleReadReadySocket [of deserialize k acc rcv s r s'] by auto
next
  case (step_sendMessage c b r)
  then show ?thesis using counter_sendMessage by simp
next
  case (step_closeConnection c)
  then show ?thesis by (simp add: closeConnection_def scheduleEvent_def)
next
  case (step_scheduleCallback cb atTimestamp delay now)
  then show ?thesis using counter_scheduleCallback by simp
next
  case (step_consumeCallbacks clock r)
  then show ?thesis using counter_consumeCallbacks by simp
next
  case (step_handleMessageToSend now ident)
  then show ?thesis using counter_handleMessageToSend by simp
next
  case (step_handleEventToFire now ident r)
  then show ?thesis using counter_handleEventToFire by simp
next
  case (step_handleWriteReadySocket k res r)
  then show ?thesis using counter_handleWriteReadySocket by simp
next
  case (step_event ev q)
  then show ?thesis by simp
next
  case (step_user_callback i q)
  then show ?thesis by simp
next
  case (step_scheduleEvent i item q)
  then show ?thesis by (simp add: scheduleEvent_def)
next
  case (step_connectTo i c q res r)
  then show ?thesis using counter_connectTo [of c res "s\<lparr>eventQueue := q\<rparr>" r s'] by simp
qed

text \<open>
  Claim C8.  In every run of calls on one bus, the connection ids allocated, whether by
  \<open>connect\<close> or by the accept path, are strictly increasing in the order of allocation:
  each is larger than every id allocated before it, so they are pairwise different and
  none is handed out twice.  Each lies above the counter the run started from and at or
  below the counter it ends with, and the counter never goes down.
\<close>

theorem C8_ids_strictly_increasing:
  assumes "bus_run s ids s'"
  shows "sorted_wrt (<) ids \<and> distinct ids \<and>
         (\<forall>c \<in> set ids. connectionIdCounter s < c \<and> c \<le> connectionIdCounter s') \<and>
         connectionIdCounter s \<le> connectionIdCounter s'"
  using assms
proof (induction rule: bus_run.induct)
  case (run_nil s)
  show ?case by simp
next
  case (run_step s ids s1 l s2)
  note st = bus_step_counter [OF run_step.hyps(2)]
  show ?case
  proof (cases l)
    case None
    with st run_step.IH show ?thesis by simp
  next
    case (Some c)
    with st have c: "c = connectionIdCounter s1 + 1" "connectionIdCounter s2 = c" by simp_all
    with run_step.IH have "\<forall>x \<in> set ids. x < c" by auto
    with run_step.IH c Some show ?thesis
      by (auto simp: sorted_wrt_append)
  qed
qed

text \<open>
  Claim C7.  On a started bus \<open>sendMessage\<close> serializes first: when the codec fails the
  call raises, whether or not the id is known.  When the codec gives bytes \<open>b\<close>, the
  call returns \<open>False\<close> and leaves the bus as it was if the id is in neither the
  incoming nor the outgoing endpoint map.  If the id is in one of them the call puts
  the pair of the id and \<open>b\<close> on the send queue, writes one byte to the wake pipe and
  returns \<open>True\<close>; it does so at once unless the queue has a byte cap that the pending
  bytes and a non-empty \<open>b\<close> together exceed, the one case where \<open>put\<close> waits.  So
  \<open>False\<close> is returned exactly when the message serializes and the id is in neither
  map.
\<close>

theorem C7_sendMessage:
  assumes "started s"
  shows "(serialize message = None \<longrightarrow>
            sendMessage serialize c message s = Some (Inl SerializeError)) \<and>
         (\<forall>b. serialize message = Some b \<longrightarrow>
            (c \<notin> dom (connIdToIncomingEndpoint s) \<and> c \<notin> dom (connIdToOutgoingEndpoint s) \<longrightarrow>
               sendMessage serialize c message s = Some (Inr (False, s))) \<and>
            (c \<in> dom (connIdToIncomingEndpoint s) \<or> c \<in> dom (connIdToOutgoingEndpoint s) \<longrightarrow>
               ((\<exists>cap. maxBytes s = Some cap \<and> b \<noteq> [] \<and>
                       cap < sum_list (map bytesPerMsg (messagesToSendQueue s)) + int (length b)) \<longrightarrow>
                  sendMessage serialize c message s = None) \<and>
               (\<not> (\<exists>cap. maxBytes s = Some cap \<and> b \<noteq> [] \<and>
                       cap < sum_list (map bytesPerMsg (messagesToSendQueue s)) + int (length b)) \<longrightarrow>
                  sendMessage serialize c message s =
                    Some (Inr (True,
                      s\<lparr>messagesToSendQueue := messagesToSendQueue s @ [ToSend c (Payload b)],
                        messageToSendWakePipe := messageToSendWakePipe s + 1\<rparr>))))) \<and>
         ((\<exists>s'. sendMessage serialize c message s = Some (Inr (False, s'))) \<longleftrightarrow>
            serialize message \<noteq> None \<and>
            c \<notin> dom (connIdToIncomingEndpoint s) \<and> c \<notin> dom (connIdToOutgoingEndpoint s))"
proof -
  have ser: "serialize message = None \<longrightarrow>
      sendMessage serialize c message s = Some (Inl SerializeError)"
    using assms by (simp add: sendMessage_def)
  have ok: "\<forall>b. serialize message = Some b \<longrightarrow>
            (c \<notin> dom (connIdToIncomingEndpoint s) \<and> c \<notin> dom (connIdToOutgoingEndpoint s) \<longrightarrow>
               sendMessage serialize c message s = Some (Inr (False, s))) \<and>
            (c \<in> dom (connIdToIncomingEndpoint s) \<or> c \<in> dom (connIdToOutgoingEndpoint s) \<longrightarrow>
               ((\<exists>cap. maxBytes s = Some cap \<and> b \<noteq> [] \<and>
                       cap < sum_list (map bytesPerMsg (messagesToSendQueue s)) + int (length b)) \<longrightarrow>
                  sendMessage serialize c message s = None) \<and>
               (\<not> (\<exists>cap. maxBytes s = Some cap \<and> b \<noteq> [] \<and>
                       cap < sum_list (map bytesPerMsg (messagesToSendQueue s)) + int (length b)) \<longrightarrow>
                  sendMessage serialize c message s =
                    Some (Inr (True,
                      s\<lparr>messagesToSendQueue := messagesToSendQueue s @ [ToSend c (Payload b)],
                        messageToSendWakePipe := messageToSendWakePipe s + 1\<rparr>))))"
    using assms
    by (auto simp: sendMessage_def isDefinitelyDead_def putOnSendQueue_def queue_put_def
             split: option.splits if_splits)
  have iff: "(\<exists>s'. sendMessage serialize c message s = Some (Inr (False, s'))) \<longleftrightarrow>
            serialize message \<noteq> None \<and>
            c \<notin> dom (connIdToIncomingEndpoint s) \<and> c \<notin> dom (connIdToOutgoingEndpoint s)"
    using assms
    by (auto simp: sendMessage_def isDefinitelyDead_def putOnSendQueue_def queue_put_def
             split: option.splits if_splits)
  from ser ok iff show ?thesis by blast
qed

text \<open>
  Claim C9.  \<open>scheduleCallback(None)\<close>, whatever the other arguments, returns with one
  warning logged and nothing else changed: the pending callbacks, \<open>_eventQueue\<close> and
  \<open>_eventsToFireQueue\<close> are as before.  And a \<open>None\<close> on \<open>_eventQueue\<close> is the sentinel:
  the event thread handles the items before the first \<open>None\<close> and returns, whatever
  follows it.
\<close>

theorem C9_scheduleCallback_None:
  "scheduleCallback None atTimestamp delay now s =
     Inr (s\<lparr>logged := logged s @ [(WARNING, ''Cannot scheduleCallback(None); discarding.'')]\<rparr>) \<and>
   eventThreadLoop (map Some q1 @ None # q2) = (q1, True)"
proof
  show "scheduleCallback None atTimestamp delay now s =
     Inr (s\<lparr>logged := logged s @ [(WARNING, ''Cannot scheduleCallback(None); discarding.'')]\<rparr>)"
    by (simp add: scheduleCallback_def log_msg_def)
  show "eventThreadLoop (map Some q1 @ None # q2) = (q1, True)"
    by (induction q1) simp_all
qed

text \<open>
  Claim C7 on a started bus whose send queue is capped at 10 bytes and holds 3, which
  knows connection 1 and not connection 2: two bytes for 1 are queued, two bytes for
  2 are refused, a message the codec rejects raises though 2 is unknown, and eight
  bytes for 1 wait for room.
\<close>

theorem C7_sendMessage_witness:
  "started ((start None (MessageBus_init None True :: unit MessageBus))
              \<lparr>connIdToIncomingEndpoint := [1 \<mapsto> (''h'', 80)], maxBytes := Some 10,
               messagesToSendQueue := [ToSend 1 (Payload [7, 7, 7])]\<rparr>) \<and>
   sendMessage Some 1 [1, 2]
     ((start None (MessageBus_init None True :: unit MessageBus))
        \<lparr>connIdToIncomingEndpoint := [1 \<mapsto> (''h'', 80)], maxBytes := Some 10,
         messagesToSendQueue := [ToSend 1 (Payload [7, 7, 7])]\<rparr>) =
     Some (Inr (True,
       (start None (MessageBus_init None True))
         \<lparr>connIdToIncomingEndpoint := [1 \<mapsto> (''h'', 80)], maxBytes := Some 10,
          messagesToSendQueue := [ToSend 1 (Payload [7, 7, 7]), ToSend 1 (Payload [1, 2])],
          messageToSendWakePipe := 1\<rparr>)) \<and>
   sendMessage Some 2 [1, 2]
     ((start None (MessageBus_init None True :: unit MessageBus))
        \<lparr>connIdToIncomingEndpoint := [1 \<mapsto> (''h'', 80)], maxBytes := Some 10,
         messagesToSendQueue := [ToSend 1 (Payload [7, 7, 7])]\<rparr>) =
     Some (Inr (False,
       (start None (MessageBus_init None True))
         \<lparr>connIdToIncomingEndpoint := [1 \<mapsto> (''h'', 80)], maxBytes := Some 10,
          messagesToSendQueue := [ToSend 1 (Payload [7, 7, 7])]\<rparr>)) \<and>
   sendMessage (\<lambda>m. if length m < 2 then None else Some m) 2 [1 :: byte]
     ((start None (MessageBus_init None True :: unit MessageBus))
        \<lparr>connIdToIncomingEndpoint := [1 \<mapsto> (''h'', 80)], maxBytes := Some 10,
         messagesToSendQueue := [ToSend 1 (Payload [7, 7, 7])]\<rparr>) =
     Some (Inl SerializeError) \<and>
   sendMessage Some 1 [1, 2, 3, 4, 5, 6, 7, 8]
     ((start None (MessageBus_init None True :: unit MessageBus))
        \<lparr>connIdToIncomingEndpoint := [1 \<mapsto> (''h'', 80)], maxBytes := Some 10,
         messagesToSendQueue := [ToSend 1 (Payload [7, 7, 7])]\<rparr>) = None"
proof -
  let ?s = "(start None (MessageBus_init None True :: unit MessageBus))
              \<lparr>connIdToIncomingEndpoint := [1 \<mapsto> (''h'', 80)], maxBytes := Some 10,
               messagesToSendQueue := [ToSend 1 (Payload [7, 7, 7])]\<rparr>"
  let ?codec = "\<lambda>m :: bytes. if length m < 2 then None else Some m"
  have st: "started ?s" by (simp add: start_def MessageBus_init_def)
  have alive: "1 \<in> dom (connIdToIncomingEndpoint ?s)"
    and dead: "2 \<notin> dom (connIdToIncomingEndpoint ?s) \<and> 2 \<notin> dom (connIdToOutgoingEndpoint ?s)"
    by (simp_all add: start_def MessageBus_init_def)
  have room: "\<not> (\<exists>cap. maxBytes ?s = Some cap \<and> [1, 2 :: byte] \<noteq> [] \<and>
      cap < sum_list (map bytesPerMsg (messagesToSendQueue ?s)) + int (length [1, 2 :: byte]))"
    by (simp add: start_def MessageBus_init_def)
  have full: "\<exists>cap. maxBytes ?s = Some cap \<and> [1, 2, 3, 4, 5, 6, 7, 8 :: byte] \<noteq> [] \<and>
      cap < sum_list (map bytesPerMsg (messagesToSendQueue ?s)) +
            int (length [1, 2, 3, 4, 5, 6, 7, 8 :: byte])"
    by (simp add: start_def MessageBus_init_def)
  have fails: "?codec [1] = None" by simp
  note one = C7_sendMessage [where serialize = Some and message = "[1, 2]" and c = 1
      and s = ?s, OF st]
  note two = C7_sendMessage [where serialize = Some and message = "[1, 2]" and c = 2
      and s = ?s, OF st]
  note three = C7_sendMessage [where serialize = ?codec and message = "[1]" and c = 2
      and s = ?s, OF st]
  note four = C7_sendMessage [where serialize = Some and message = "[1, 2, 3, 4, 5, 6, 7, 8]"
      and c = 1 and s = ?s, OF st]
  from one alive room have "sendMessage Some 1 [1, 2] ?s =
      Some (Inr (True, ?s\<lparr>messagesToSendQueue := messagesToSendQueue ?s @ [ToSend 1 (Payload [1, 2])],
                          messageToSendWakePipe := messageToSendWakePipe ?s + 1\<rparr>))"
    by blast
  then have r1: "sendMessage Some 1 [1, 2] ?s =
     Some (Inr (True,
       (start None (MessageBus_init None True))
         \<lparr>connIdToIncomingEndpoint := [1 \<mapsto> (''h'', 80)], maxBytes := Some 10,
          messagesToSendQueue := [ToSend 1 (Payload [7, 7, 7]), ToSend 1 (Payload [1, 2])],
          messageToSendWakePipe := 1\<rparr>))"
    by (simp add: start_def MessageBus_init_def)
  from two dead have r2: "sendMessage Some 2 [1, 2] ?s = Some (Inr (False, ?s))"
    by blast
  from three fails have r3: "sendMessage ?codec 2 [1] ?s = Some (Inl SerializeError)"
    by blast
  from four alive full have r4: "sendMessage Some 1 [1, 2, 3, 4, 5, 6, 7, 8] ?s = None"
    by blast
  from st r1 r2 r3 r4 show ?thesis by blast
qed

text \<open>
  Claim C9 on a fresh bus, and on a queue with an event on either side of a \<open>None\<close>.
\<close>

theorem C9_scheduleCallback_None_witness:
  "scheduleCallback None (Some 5) None 0 (MessageBus_init None True :: unit MessageBus) =
     Inr ((MessageBus_init None True)
            \<lparr>logged := [(WARNING, ''Cannot scheduleCallback(None); discarding.'')]\<rparr>) \<and>
   eventThreadLoop [Some (QEvent (Stopped :: unit MessageBusEvent)), None, Some (QEvent Stopped)] =
     ([QEvent Stopped], True)"
  using C9_scheduleCallback_None [of "Some 5" None 0 "MessageBus_init None True :: unit MessageBus"
      "[QEvent Stopped]" "[Some (QEvent Stopped)]"]
  by (simp add: MessageBus_init_def)

text \<open>
  Claim C8 on a run of \<open>connect\<close>, an accepted connection and \<open>connect\<close> again from a
  freshly started bus: the ids are 1, 2, 3.
\<close>

theorem C8_ids_strictly_increasing_witness:
  "\<exists>s1 s2 s3 :: unit MessageBus.
     bus_run (start (Some 0) (MessageBus_init None True)) [1, 2, 3] s3 \<and>
     connect (''h'', 80) (start (Some 0) (MessageBus_init None True)) = Some (Inr (1, s1)) \<and>
     handleReadReadySocket (\<lambda>b. None) 0 (Accepted 5 (''p'', 9)) SSLWantRead s1 = Inr (Some True, s2) \<and>
     connect (''h'', 81) s2 = Some (Inr (3, s3)) \<and>
     sorted_wrt (<) [1, 2, 3 :: int] \<and> distinct [1, 2, 3 :: int] \<and>
     (\<forall>c \<in> set [1, 2, 3]. connectionIdCounter (start (Some 0) (MessageBus_init None True :: unit MessageBus)) < c
        \<and> c \<le> connectionIdCounter s3)"
proof -
  let ?s0 = "start (Some 0) (MessageBus_init None True) :: unit MessageBus"
  obtain s1 where c1: "connect (''h'', 80) ?s0 = Some (Inr (1, s1))"
    by (simp add: connect_def newConnectionId_def putOnSendQueue_def queue_put_def start_def
          MessageBus_init_def)
  then have k1: "connectionIdCounter s1 = 1" "acceptSocket s1 = Some 0" "started s1" "maxBytes s1 = None"
    by (auto simp: connect_def newConnectionId_def putOnSendQueue_def queue_put_def start_def
          MessageBus_init_def split: if_splits)
  obtain s2 where a2: "handleReadReadySocket (\<lambda>b. None) 0 (Accepted 5 (''p'', 9)) SSLWantRead s1 = Inr (Some True, s2)"
    and e2: "eventQueue s2 = eventQueue s1 @ [Some (QEvent (NewIncomingConnection (''p'', 9) 2))]"
    using k1 by (simp add: handleReadReadySocket_def newConnectionId_def fireEvent_def)
  from a2 k1 have k2: "connectionIdCounter s2 = 2" "started s2" "maxBytes s2 = None"
    by (auto simp: handleReadReadySocket_def newConnectionId_def fireEvent_def)
  obtain s3 where c3: "connect (''h'', 81) s2 = Some (Inr (3, s3))"
    using k2 by (simp add: connect_def newConnectionId_def putOnSendQueue_def queue_put_def)
  have "bus_run ?s0 ([] @ [1]) s1"
    using bus_run.run_step [OF bus_run.run_nil bus_step.step_connect [OF c1]] by simp
  from bus_run.run_step [OF this bus_step.step_accept [OF k1(2) a2 e2]]
  have "bus_run ?s0 ([1] @ [2]) s2" by simp
  from bus_run.run_step [OF this bus_step.step_connect [OF c3]]
  have run: "bus_run ?s0 [1, 2, 3] s3" by simp
  from C8_ids_strictly_increasing [OF run] run c1 a2 c3 show ?thesis
    by blast
qed

section \<open>Timed callbacks\<close>

lemma set_insort_right [simp]: "set (insort_right v xs) = insert v (set xs)"
  by (induction xs) auto



lemma set_SortedSet_add [simp]: "set (SortedSet_add v xs) = insert v (set xs)"
  by (auto simp: SortedSet_add_def)

lemma distinct_insort_right: "v \<notin> set xs \<Longrightarrow> distinct xs \<Longrightarrow> distinct (insort_right v xs)"
  by (induction xs) auto

lemma distinct_SortedSet_add: "distinct xs \<Longrightarrow> distinct (SortedSet_add v xs)"
  by (simp add: SortedSet_add_def distinct_insort_right)






lemma delivered_append: "delivered (xs @ ys) = delivered xs @ delivered ys"
  by (simp add: delivered_def)












section \<open>UTF-8 round trip\<close>

























section \<open>Incoming payloads\<close>


lemma markSocketClosed_incoming:
  assumes "socketToIncomingConnId s k = Some c" "connIdToIncomingSocket s c = Some k'"
    and "connIdToIncomingEndpoint s c = Some ep" "incomingSocketBuffers s k = Some mb"
  shows "\<exists>s'. markSocketClosed k s = Inr s' \<and>
           eventQueue s' = eventQueue s @ [Some (QEvent (IncomingConnectionClosed c))] \<and>
           connIdToIncomingSocket s' c = None \<and> socketToIncomingConnId s' k = None \<and>
           connIdToIncomingEndpoint s' c = None \<and> incomingSocketBuffers s' k = None \<and>
           socketToBytesNeedingWrite s' k = None \<and>
           k \<notin> allSockets s' \<and> c \<notin> unauthenticatedConnections s' \<and> logged s' = logged s"
  using assms by (simp add: markSocketClosed_def fireEvent_def domIff)

lemma markSocketClosed_outgoing:
  assumes "socketToIncomingConnId s k = None" "socketToOutgoingConnId s k = Some c"
    and "connIdToOutgoingSocket s c = Some k'"
    and "connIdToOutgoingEndpoint s c = Some ep" "incomingSocketBuffers s k = Some mb"
  shows "\<exists>s'. markSocketClosed k s = Inr s' \<and>
           eventQueue s' = eventQueue s @ [Some (QEvent (OutgoingConnectionClosed c))] \<and>
           connIdToOutgoingSocket s' c = None \<and> socketToOutgoingConnId s' k = None \<and>
           connIdToOutgoingEndpoint s' c = None \<and> incomingSocketBuffers s' k = None \<and>
           socketToBytesNeedingWrite s' k = None \<and>
           k \<notin> allSockets s' \<and> logged s' = logged s"
  using assms by (simp add: markSocketClosed_def fireEvent_def domIff)

lemma handleReadReadySocket_data:
  assumes "acceptSocket s \<noteq> Some k" "k \<in> allSockets s" "incomingSocketBuffers s k = Some mb"
    and "bs \<noteq> []" "MessageBuffer_write mb bs = (Inr newMessages, mb')"
  shows "handleReadReadySocket d k acc (Received bs) s =
           add_result (Some True) (handleNewMessages d newMessages k (after_write k (length bs) mb' s))"
  using assms by (simp add: handleReadReadySocket_def after_write_def Let_def)


lemma getConnectionIdFromSocket_cong:
  "socketToIncomingConnId s' = socketToIncomingConnId s \<Longrightarrow>
   socketToOutgoingConnId s' = socketToOutgoingConnId s \<Longrightarrow>
   getConnectionIdFromSocket s' k = getConnectionIdFromSocket s k"
  by (simp add: getConnectionIdFromSocket_def split: option.splits)

lemma handleNewMessages_established:
  "getConnectionIdFromSocket s k = Some c \<Longrightarrow> c \<notin> unauthenticatedConnections s \<Longrightarrow>
   \<forall>x \<in> set ms1. d x \<noteq> None \<Longrightarrow>
   handleNewMessages d (ms1 @ rest) k s =
     handleNewMessages d rest k
       (s\<lparr>eventQueue := eventQueue s @ map (\<lambda>x. Some (QEvent (IncomingMessage c (the (d x))))) ms1\<rparr>)"
proof (induction ms1 arbitrary: s)
  case Nil
  then show ?case by simp
next
  case (Cons x xs)
  from Cons.prems obtain y where y: "d x = Some y" by auto
  let ?s1 = "fireEvent (IncomingMessage c y) s"
  from Cons.prems y have h: "handleIncomingMessage d x k s = (True, ?s1)"
    by (simp add: handleIncomingMessage_def)
  have "getConnectionIdFromSocket ?s1 k = getConnectionIdFromSocket s k"
    by (rule getConnectionIdFromSocket_cong) (simp_all add: fireEvent_def)
  with Cons.prems have "getConnectionIdFromSocket ?s1 k = Some c" "c \<notin> unauthenticatedConnections ?s1"
    by (simp_all add: fireEvent_def)
  from Cons.IH [OF this] Cons.prems(3) h y show ?case
    by (simp add: fireEvent_def)
qed

text \<open>
  Claim C1, amended.  On an established connection, incoming or outgoing, let the bytes
  read complete the payloads \<open>ms1 @ m # ms2\<close>, where the codec deserializes those of
  \<open>ms1\<close> and fails on \<open>m\<close>.  The bus delivers \<open>ms1\<close>, logs the error, drops \<open>m\<close> and
  closes the connection: it leaves every registry map and its buffer is deleted, one
  \<open>IncomingConnectionClosed\<close> or \<open>OutgoingConnectionClosed\<close> event is emitted, and
  nothing of \<open>ms2\<close> is delivered.
\<close>

theorem C1_deserialization_failure_closes:
  assumes sock: "acceptSocket s \<noteq> Some k" "k \<in> allSockets s"
    and est: "getConnectionIdFromSocket s k = Some c" "c \<notin> unauthenticatedConnections s"
    and recv: "incomingSocketBuffers s k = Some mb" "bs \<noteq> []"
      "MessageBuffer_write mb bs = (Inr (ms1 @ m # ms2), mb')"
    and good: "\<forall>x \<in> set ms1. d x \<noteq> None" and bad: "d m = None"
  shows "(socketToIncomingConnId s k = Some c \<and> connIdToIncomingSocket s c = Some k \<and>
          connIdToIncomingEndpoint s c = Some ep \<longrightarrow>
           (\<exists>s'. handleReadReadySocket d k acc (Received bs) s = Inr (Some True, s') \<and>
                 eventQueue s' =
                   eventQueue s @ map (\<lambda>x. Some (QEvent (IncomingMessage c (the (d x))))) ms1
                     @ [Some (QEvent (IncomingConnectionClosed c))] \<and>
                 logged s' = logged s @ [(ERROR, ''Failed to deserialize a message'')] \<and>
                 connIdToIncomingSocket s' c = None \<and> socketToIncomingConnId s' k = None \<and>
                 connIdToIncomingEndpoint s' c = None \<and> incomingSocketBuffers s' k = None \<and>
                 k \<notin> allSockets s')) \<and>
         (socketToIncomingConnId s k = None \<and> socketToOutgoingConnId s k = Some c \<and>
          connIdToOutgoingSocket s c = Some k \<and> connIdToOutgoingEndpoint s c = Some ep \<longrightarrow>
           (\<exists>s'. handleReadReadySocket d k acc (Received bs) s = Inr (Some True, s') \<and>
                 eventQueue s' =
                   eventQueue s @ map (\<lambda>x. Some (QEvent (IncomingMessage c (the (d x))))) ms1
                     @ [Some (QEvent (OutgoingConnectionClosed c))] \<and>
                 logged s' = logged s @ [(ERROR, ''Failed to deserialize a message'')] \<and>
                 connIdToOutgoingSocket s' c = None \<and> socketToOutgoingConnId s' k = None \<and>
                 connIdToOutgoingEndpoint s' c = None \<and> incomingSocketBuffers s' k = None \<and>
                 k \<notin> allSockets s'))"
proof -
  let ?s4 = "after_write k (length bs) mb' s"
  let ?s5 = "?s4\<lparr>eventQueue := eventQueue ?s4 @ map (\<lambda>x. Some (QEvent (IncomingMessage c (the (d x))))) ms1\<rparr>"
  let ?s6 = "log_msg ERROR ''Failed to deserialize a message'' ?s5"
  note hr = handleReadReadySocket_data [OF sock recv, where d = d and acc = acc]
  have "getConnectionIdFromSocket ?s4 k = getConnectionIdFromSocket s k"
    by (rule getConnectionIdFromSocket_cong) (simp_all add: after_write_def Let_def)
  with est have c4: "getConnectionIdFromSocket ?s4 k = Some c" "c \<notin> unauthenticatedConnections ?s4"
    by (simp_all add: after_write_def Let_def)
  have "getConnectionIdFromSocket ?s5 k = getConnectionIdFromSocket s k"
    by (rule getConnectionIdFromSocket_cong) (simp_all add: after_write_def Let_def)
  with est have c5: "getConnectionIdFromSocket ?s5 k = Some c" "c \<notin> unauthenticatedConnections ?s5"
    by (simp_all add: after_write_def Let_def)
  from c5 bad have "handleIncomingMessage d m k ?s5 = (False, ?s6)"
    by (simp add: handleIncomingMessage_def)
  then have "handleNewMessages d (m # ms2) k ?s5 = markSocketClosed k ?s6"
    by simp
  with handleNewMessages_established [OF c4 good, of "m # ms2"] hr
  have run: "handleReadReadySocket d k acc (Received bs) s =
               add_result (Some True) (markSocketClosed k ?s6)"
    by simp
  have q6: "eventQueue ?s6 = eventQueue s @ map (\<lambda>x. Some (QEvent (IncomingMessage c (the (d x))))) ms1"
    and l6: "logged ?s6 = logged s @ [(ERROR, ''Failed to deserialize a message'')]"
    and b6: "incomingSocketBuffers ?s6 k = Some mb'"
    by (simp_all add: after_write_def log_msg_def Let_def)
  show ?thesis
  proof (intro conjI impI)
    assume a: "socketToIncomingConnId s k = Some c \<and> connIdToIncomingSocket s c = Some k \<and>
          connIdToIncomingEndpoint s c = Some ep"
    then have "socketToIncomingConnId ?s6 k = Some c" "connIdToIncomingSocket ?s6 c = Some k"
      "connIdToIncomingEndpoint ?s6 c = Some ep"
      by (simp_all add: after_write_def log_msg_def Let_def)
    from markSocketClosed_incoming [OF this b6] run q6 l6
    show "\<exists>s'. handleReadReadySocket d k acc (Received bs) s = Inr (Some True, s') \<and>
                 eventQueue s' =
                   eventQueue s @ map (\<lambda>x. Some (QEvent (IncomingMessage c (the (d x))))) ms1
                     @ [Some (QEvent (IncomingConnectionClosed c))] \<and>
                 logged s' = logged s @ [(ERROR, ''Failed to deserialize a message'')] \<and>
                 connIdToIncomingSocket s' c = None \<and> socketToIncomingConnId s' k = None \<and>
                 connIdToIncomingEndpoint s' c = None \<and> incomingSocketBuffers s' k = None \<and>
                 k \<notin> allSockets s'"
      by (auto simp: add_result_def)
  next
    assume a: "socketToIncomingConnId s k = None \<and> socketToOutgoingConnId s k = Some c \<and>
          connIdToOutgoingSocket s c = Some k \<and> connIdToOutgoingEndpoint s c = Some ep"
    then have "socketToIncomingConnId ?s6 k = None" "socketToOutgoingConnId ?s6 k = Some c"
      "connIdToOutgoingSocket ?s6 c = Some k" "connIdToOutgoingEndpoint ?s6 c = Some ep"
      by (simp_all add: after_write_def log_msg_def Let_def)
    from markSocketClosed_outgoing [OF this b6] run q6 l6
    show "\<exists>s'. handleReadReadySocket d k acc (Received bs) s = Inr (Some True, s') \<and>
                 eventQueue s' =
                   eventQueue s @ map (\<lambda>x. Some (QEvent (IncomingMessage c (the (d x))))) ms1
                     @ [Some (QEvent (OutgoingConnectionClosed c))] \<and>
                 logged s' = logged s @ [(ERROR, ''Failed to deserialize a message'')] \<and>
                 connIdToOutgoingSocket s' c = None \<and> socketToOutgoingConnId s' k = None \<and>
                 connIdToOutgoingEndpoint s' c = None \<and> incomingSocketBuffers s' k = None \<and>
                 k \<notin> allSockets s'"
      by (auto simp: add_result_def)
  qed
qed



lemma write_two_frames:
  "MessageBuffer_write (MessageBuffer_init True)
     [1, 0, 0, 0, x, 1, 0, 0, 0, 1, 0, 0, 0, y, 1, 0, 0, 0] =
     (Inr [[x], [y]], (MessageBuffer_init True)\<lparr>messagesEver := 2\<rparr>)"
  by (simp add: MessageBuffer_write_def MessageBuffer_init_def write_loop.simps read_prefix_def
        MESSAGE_LEN_BYTES_def py_slice_to_def py_slice_def py_del_to_def py_index_def
        bytes_int32_def)

text \<open>
  Claim C1, amended, on a connection accepted by a bus without auth token: the payload
  \<open>01\<close> is delivered, the payload \<open>02\<close> fails to deserialize and the connection is
  closed.
\<close>

theorem C1_deserialization_failure_closes_witness:
  "\<exists>s :: bytes MessageBus.
     handleReadReadySocket (Some([2] := None)) 0 (Accepted 5 (''p'', 9)) SSLWantRead
       (start (Some 0) (MessageBus_init None True)) = Inr (Some True, s) \<and>
     acceptSocket s \<noteq> Some 5 \<and> 5 \<in> allSockets s \<and>
     getConnectionIdFromSocket s 5 = Some 1 \<and> 1 \<notin> unauthenticatedConnections s \<and>
     incomingSocketBuffers s 5 = Some (MessageBuffer_init True) \<and>
     socketToIncomingConnId s 5 = Some 1 \<and> connIdToIncomingSocket s 1 = Some 5 \<and>
     connIdToIncomingEndpoint s 1 = Some (''p'', 9) \<and>
     (Some([2 :: byte] := None)) [2] = None \<and>
     (\<exists>s'. handleReadReadySocket (Some([2] := None)) 5 AcceptOSError
              (Received [1, 0, 0, 0, 1, 1, 0, 0, 0, 1, 0, 0, 0, 2, 1, 0, 0, 0]) s = Inr (Some True, s') \<and>
           eventQueue s' = eventQueue s @ [Some (QEvent (IncomingMessage 1 [1])),
                                           Some (QEvent (IncomingConnectionClosed 1))] \<and>
           connIdToIncomingSocket s' 1 = None)"
proof -
  let ?d = "Some([2 :: byte] := None)"
  let ?s0 = "start (Some 0) (MessageBus_init None True) :: bytes MessageBus"
  obtain s where acc: "handleReadReadySocket ?d 0 (Accepted 5 (''p'', 9)) SSLWantRead ?s0 = Inr (Some True, s)"
    and h: "acceptSocket s \<noteq> Some 5" "5 \<in> allSockets s"
    and e: "getConnectionIdFromSocket s 5 = Some 1" "1 \<notin> unauthenticatedConnections s"
    and b: "incomingSocketBuffers s 5 = Some (MessageBuffer_init True)"
    and c: "socketToIncomingConnId s 5 = Some 1" "connIdToIncomingSocket s 1 = Some 5"
      "connIdToIncomingEndpoint s 1 = Some (''p'', 9)"
    by (simp add: handleReadReadySocket_def newConnectionId_def fireEvent_def start_def
          MessageBus_init_def getConnectionIdFromSocket_def)
  have ne: "[1, 0, 0, 0, 1, 1, 0, 0, 0, 1, 0, 0, 0, 2, 1, 0, 0, 0] \<noteq> ([] :: bytes)" by simp
  have w: "MessageBuffer_write (MessageBuffer_init True)
             [1, 0, 0, 0, 1, 1, 0, 0, 0, 1, 0, 0, 0, 2, 1, 0, 0, 0] =
             (Inr ([[1]] @ [2] # []), (MessageBuffer_init True)\<lparr>messagesEver := 2\<rparr>)"
    using write_two_frames [of 1 2] by simp
  have good: "\<forall>x \<in> set [[1 :: byte]]. ?d x \<noteq> None" and bad: "?d [2] = None"
    by simp_all
  from C1_deserialization_failure_closes [OF h e b ne w good bad,
      where ep = "(''p'', 9)" and acc = AcceptOSError] c
  obtain s' where run: "handleReadReadySocket ?d 5 AcceptOSError
              (Received [1, 0, 0, 0, 1, 1, 0, 0, 0, 1, 0, 0, 0, 2, 1, 0, 0, 0]) s = Inr (Some True, s')"
    and q: "eventQueue s' =
              eventQueue s @ map (\<lambda>x. Some (QEvent (IncomingMessage 1 (the (?d x))))) [[1]]
                @ [Some (QEvent (IncomingConnectionClosed 1))]"
    and gone: "connIdToIncomingSocket s' 1 = None"
    by blast
  from q have "eventQueue s' = eventQueue s @ [Some (QEvent (IncomingMessage 1 [1])),
                                           Some (QEvent (IncomingConnectionClosed 1))]"
    by simp
  with run gone
  have "\<exists>s'. handleReadReadySocket ?d 5 AcceptOSError
              (Received [1, 0, 0, 0, 1, 1, 0, 0, 0, 1, 0, 0, 0, 2, 1, 0, 0, 0]) s = Inr (Some True, s') \<and>
           eventQueue s' = eventQueue s @ [Some (QEvent (IncomingMessage 1 [1])),
                                           Some (QEvent (IncomingConnectionClosed 1))] \<and>
           connIdToIncomingSocket s' 1 = None"
    by blast
  with acc h e b c bad show ?thesis by blast
qed

text \<open>
  Claim C1 as stated fails: on an established incoming connection a frame whose payload
  fails deserialization, followed by a good frame in the same read, leaves the
  connection out of the registry, with \<open>IncomingConnectionClosed\<close> as the only event;
  the good frame is never delivered.
\<close>

theorem C1_connection_closed_counterexample:
  "\<not> isl (handleReadReadySocket (Some([1] := None)) 5 AcceptOSError
            (Received [1, 0, 0, 0, 1, 1, 0, 0, 0, 1, 0, 0, 0, 2, 1, 0, 0, 0])
            ((start (Some 0) (MessageBus_init None True :: bytes MessageBus))
               \<lparr>socketToIncomingConnId := [5 \<mapsto> 1], connIdToIncomingSocket := [1 \<mapsto> 5],
                connIdToIncomingEndpoint := [1 \<mapsto> (''p'', 9)],
                incomingSocketBuffers := [5 \<mapsto> MessageBuffer_init True],
                allSockets := {0, 5}, connectionIdCounter := 1\<rparr>)) \<and>
   eventQueue (snd (projr (handleReadReadySocket (Some([1] := None)) 5 AcceptOSError
            (Received [1, 0, 0, 0, 1, 1, 0, 0, 0, 1, 0, 0, 0, 2, 1, 0, 0, 0])
            ((start (Some 0) (MessageBus_init None True :: bytes MessageBus))
               \<lparr>socketToIncomingConnId := [5 \<mapsto> 1], connIdToIncomingSocket := [1 \<mapsto> 5],
                connIdToIncomingEndpoint := [1 \<mapsto> (''p'', 9)],
                incomingSocketBuffers := [5 \<mapsto> MessageBuffer_init True],
                allSockets := {0, 5}, connectionIdCounter := 1\<rparr>)))) =
     [Some (QEvent (IncomingConnectionClosed 1))] \<and>
   connIdToIncomingSocket (snd (projr (handleReadReadySocket (Some([1] := None)) 5 AcceptOSError
            (Received [1, 0, 0, 0, 1, 1, 0, 0, 0, 1, 0, 0, 0, 2, 1, 0, 0, 0])
            ((start (Some 0) (MessageBus_init None True :: bytes MessageBus))
               \<lparr>socketToIncomingConnId := [5 \<mapsto> 1], connIdToIncomingSocket := [1 \<mapsto> 5],
                connIdToIncomingEndpoint := [1 \<mapsto> (''p'', 9)],
                incomingSocketBuffers := [5 \<mapsto> MessageBuffer_init True],
                allSockets := {0, 5}, connectionIdCounter := 1\<rparr>)))) 1 = None"
proof -
  let ?s = "(start (Some 0) (MessageBus_init None True :: bytes MessageBus))
               \<lparr>socketToIncomingConnId := [5 \<mapsto> 1], connIdToIncomingSocket := [1 \<mapsto> 5],
                connIdToIncomingEndpoint := [1 \<mapsto> (''p'', 9)],
                incomingSocketBuffers := [5 \<mapsto> MessageBuffer_init True],
                allSockets := {0, 5}, connectionIdCounter := 1\<rparr>"
  have "\<exists>s'. handleReadReadySocket (Some([1] := None)) 5 AcceptOSError
            (Received [1, 0, 0, 0, 1, 1, 0, 0, 0, 1, 0, 0, 0, 2, 1, 0, 0, 0]) ?s = Inr (Some True, s') \<and>
          eventQueue s' = [Some (QEvent (IncomingConnectionClosed 1))] \<and>
          connIdToIncomingSocket s' 1 = None"
    by (simp add: handleReadReadySocket_def write_two_frames handleIncomingMessage_def
          getConnectionIdFromSocket_def markSocketClosed_def fireEvent_def log_msg_def
          add_result_def start_def MessageBus_init_def pendingBytecount_def)
  then show ?thesis by auto
qed

section \<open>The auth token on outgoing connections\<close>

text \<open>
  Claim C3 at the empty auth token.  A bus whose token is the empty string is
  configured with a token: every test on it is \<open>is not None\<close>, and its accept path
  demands the token as first payload.  A caller connects and sends one message with the
  serialized bytes \<open>07\<close>.  When the socket thread takes \<open>TriggerConnect\<close> from the
  send queue, \<open>_scheduleBytesForWrite\<close> returns at once on the empty token and stages
  nothing; the message is then staged alone, and on connect success the write buffer of
  the new socket holds the frame of the message and no token frame before it.
\<close>

theorem C3_empty_token_not_sent:
  "\<exists>s1 s2 s3 s4 s5 :: bytes MessageBus.
     authToken (start None (MessageBus_init (Some []) True :: bytes MessageBus)) = Some [] \<and>
     utf8_encode [] = Some [] \<and>
     connect (''h'', 80) (start None (MessageBus_init (Some []) True)) = Some (Inr (1, s1)) \<and>
     sendMessage Some 1 [7] s1 = Some (Inr (True, s2)) \<and>
     messagesToSendQueue s2 = [ToSend 1 TriggerConnect, ToSend 1 (Payload [7])] \<and>
     handleMessageToSend 0 100 s2 = Inr s3 \<and>
     messagesForUnconnectedOutgoingConnection s3 1 = None \<and>
     pendingTimedCallbacks s3 = [(0, Some (100, ConnectTo 1))] \<and>
     handleMessageToSend 0 101 s3 = Inr s4 \<and>
     messagesForUnconnectedOutgoingConnection s4 1 = Some [[7]] \<and>
     connectTo 1 (Connected 9) s4 = Inr (True, s5) \<and>
     socketToBytesNeedingWrite s5 9 = Some [1, 0, 0, 0, 7, 1, 0, 0, 0] \<and>
     encode [7] True = Inr [1, 0, 0, 0, 7, 1, 0, 0, 0]"
proof -
  let ?s0 = "start None (MessageBus_init (Some []) True) :: bytes MessageBus"
  have tok: "authToken ?s0 = Some []" "utf8_encode [] = Some []"
    by (simp_all add: start_def MessageBus_init_def utf8_encode_def)
  have enc: "encode [7] True = Inr [1, 0, 0, 0, 7, 1, 0, 0, 0]"
    by (simp add: encode_def struct_pack_i_def int32_bytes_def)
  obtain s1 where c1: "connect (''h'', 80) ?s0 = Some (Inr (1, s1))"
    and s1: "s1 = ?s0\<lparr>connectionIdCounter := 1, connIdToOutgoingEndpoint := [1 \<mapsto> (''h'', 80)],
                      connIdPendingOutgoingConnection := {1},
                      messagesToSendQueue := [ToSend 1 TriggerConnect],
                      messageToSendWakePipe := 1\<rparr>"
    by (simp add: connect_def newConnectionId_def putOnSendQueue_def queue_put_def start_def
          MessageBus_init_def)
  obtain s2 where c2: "sendMessage Some 1 [7] s1 = Some (Inr (True, s2))"
    and s2: "s2 = s1\<lparr>messagesToSendQueue := [ToSend 1 TriggerConnect, ToSend 1 (Payload [7])],
                      messageToSendWakePipe := 2\<rparr>"
    unfolding s1
    by (simp add: sendMessage_def isDefinitelyDead_def putOnSendQueue_def queue_put_def start_def
          MessageBus_init_def)
  obtain s3 where c3: "handleMessageToSend 0 100 s2 = Inr s3"
    and s3: "s3 = s2\<lparr>messagesToSendQueue := [ToSend 1 (Payload [7])],
                      pendingTimedCallbacks := [(0, Some (100, ConnectTo 1))],
                      generalWakePipe := 1\<rparr>"
    unfolding s2 s1
    by (simp add: handleMessageToSend_def queue_get_def scheduleBytesForWrite_def
          scheduleCallback_def SortedSet_add_def utf8_encode_def start_def MessageBus_init_def)
  obtain s4 where c4: "handleMessageToSend 0 101 s3 = Inr s4"
    and s4: "s4 = s3\<lparr>messagesToSendQueue := [],
                      messagesForUnconnectedOutgoingConnection := [1 \<mapsto> [[7]]]\<rparr>"
    unfolding s3 s2 s1
    by (simp add: handleMessageToSend_def queue_get_def scheduleBytesForWrite_def
          start_def MessageBus_init_def)
  obtain s5 where c5: "connectTo 1 (Connected 9) s4 = Inr (True, s5)"
    and s5: "socketToBytesNeedingWrite s5 9 = Some [1, 0, 0, 0, 7, 1, 0, 0, 0]"
    unfolding s4 s3 s2 s1
    by (simp add: connectTo_def scheduleBytesForWrite_def scheduleEvent_def enc
          start_def MessageBus_init_def)
  have "messagesToSendQueue s2 = [ToSend 1 TriggerConnect, ToSend 1 (Payload [7])]"
    "messagesForUnconnectedOutgoingConnection s3 1 = None"
    "pendingTimedCallbacks s3 = [(0, Some (100, ConnectTo 1))]"
    "messagesForUnconnectedOutgoingConnection s4 1 = Some [[7]]"
    unfolding s4 s3 s2 s1 by (simp_all add: start_def MessageBus_init_def)
  with tok enc c1 c2 c3 c4 c5 s5 show ?thesis by blast
qed

end
